theory Spec2Isabelle
  imports Complex_Main "HOL-Library.Word"
begin

section \<open>EMILY tracker: a shallow embedding of \<^verbatim>\<open>main.cpp\<close>\<close>

text \<open>
  The program tracks a coloured vehicle in a video stream.  Its per-frame work is modelled
  here function by function.  Conventions of the embedding:
  \<^item> C++ \<^verbatim>\<open>int\<close> values (trackbar positions, pixel coordinates, frame sizes) are \<open>int\<close>;
    they are screen and image coordinates and trackbar positions, far from the 32-bit
    limits, so no arithmetic on them wraps;
  \<^item> \<^verbatim>\<open>uchar\<close> pixels are \<open>8 word\<close>;
  \<^item> the pose functions compute with \<^verbatim>\<open>Point2f\<close> and \<^verbatim>\<open>double\<close>: their operations are
    modelled in single and double precision, with rounding to nearest, overflow to
    infinity and the conversions to \<^verbatim>\<open>int\<close>; the other \<^verbatim>\<open>double\<close> values (the moments)
    are \<open>real\<close>: rounding error of their operations is not represented, conversions
    to integers are;
  \<^item> OpenCV routines whose result is data of the image (\<^verbatim>\<open>moments\<close>, \<^verbatim>\<open>fitEllipse\<close>,
    \<^verbatim>\<open>RotatedRect::points\<close>, \<^verbatim>\<open>findContours\<close>, \<^verbatim>\<open>calcHist\<close>, \<^verbatim>\<open>CamShift\<close>) are
    parameters of the functions that call them; the small OpenCV value types
    (\<^verbatim>\<open>Point\<close>, \<^verbatim>\<open>Rect\<close> and its intersection, \<^verbatim>\<open>inRange\<close>, \<^verbatim>\<open>addWeighted\<close>) are written out.
\<close>

subsection \<open>Algorithm parameters (the global variables behind the trackbars)\<close>

record settings =
  hue_1_min :: int
  hue_1_max :: int
  hue_2_min :: int
  hue_2_max :: int
  saturation_min :: int
  saturation_max :: int
  value_min :: int
  value_max :: int
  blur_kernel_size :: int
  erode_size :: int
  dilate_size :: int

text \<open>The values the globals are initialised with.\<close>

definition initial_settings :: settings where
  "initial_settings =
     \<lparr>hue_1_min = 0, hue_1_max = 10, hue_2_min = 160, hue_2_max = 180,
      saturation_min = 120, saturation_max = 255, value_min = 100, value_max = 255,
      blur_kernel_size = 21, erode_size = 2, dilate_size = 16\<rparr>"

text \<open>The remainder operator \<^verbatim>\<open>%\<close> of C++: the result has the sign of the dividend.\<close>

definition c_rem :: "int \<Rightarrow> int \<Rightarrow> int" where
  "c_rem a b = sgn a * (\<bar>a\<bar> mod \<bar>b\<bar>)"

text \<open>
  \<^verbatim>\<open>on_trackbar\<close>: the handler of every trackbar.  The three \<^verbatim>\<open>if\<close> statements run in
  sequence on the globals.
\<close>

definition on_trackbar :: "settings \<Rightarrow> settings" where
  "on_trackbar s =
     (let s1 = (if c_rem (blur_kernel_size s) 2 = 0
                then s\<lparr>blur_kernel_size := blur_kernel_size s + 1\<rparr> else s);
          s2 = (if erode_size s1 = 0 then s1\<lparr>erode_size := erode_size s1 + 1\<rparr> else s1);
          s3 = (if dilate_size s2 = 0 then s2\<lparr>dilate_size := dilate_size s2 + 1\<rparr> else s2)
      in s3)"

subsection \<open>Colour thresholding (static pipeline)\<close>

type_synonym uchar = "8 word"

text \<open>A pixel of the HSV frame: hue, saturation, value.\<close>

type_synonym Vec3b = "uchar \<times> uchar \<times> uchar"

text \<open>The first three components of a \<^verbatim>\<open>cv::Scalar\<close> built from trackbar positions.\<close>

type_synonym Scalar = "int \<times> int \<times> int"

text \<open>
  \<^verbatim>\<open>inRange\<close> on one pixel: 255 when every channel lies between the bounds, both
  inclusive, 0 otherwise.
\<close>

fun inRange_pixel :: "Vec3b \<Rightarrow> Scalar \<Rightarrow> Scalar \<Rightarrow> uchar" where
  "inRange_pixel (h, s, v) (l0, l1, l2) (u0, u1, u2) =
     (if l0 \<le> uint h \<and> uint h \<le> u0 \<and> l1 \<le> uint s \<and> uint s \<le> u1 \<and> l2 \<le> uint v \<and> uint v \<le> u2
      then 255 else 0)"

definition inRange :: "Vec3b list list \<Rightarrow> Scalar \<Rightarrow> Scalar \<Rightarrow> uchar list list" where
  "inRange src lowerb upperb = map (map (\<lambda>p. inRange_pixel p lowerb upperb)) src"

text \<open>\<^verbatim>\<open>saturate_cast<uchar>\<close>: clamp to the range of a byte.\<close>

definition saturate_cast_uchar :: "int \<Rightarrow> uchar" where
  "saturate_cast_uchar v = (if v < 0 then 0 else if v > 255 then 255 else word_of_int v)"

text \<open>
  \<^verbatim>\<open>addWeighted(src1, alpha, src2, beta, gamma, dst)\<close> on single-channel byte images:
  \<^verbatim>\<open>dst = saturate(src1 * alpha + src2 * beta + gamma)\<close>.  The program calls it with the
  weights 1.0, 1.0 and 0.0, which are integers.
\<close>

definition addWeighted_pixel :: "uchar \<Rightarrow> int \<Rightarrow> uchar \<Rightarrow> int \<Rightarrow> int \<Rightarrow> uchar" where
  "addWeighted_pixel a alpha b beta gamma = saturate_cast_uchar (uint a * alpha + uint b * beta + gamma)"

definition addWeighted ::
  "uchar list list \<Rightarrow> int \<Rightarrow> uchar list list \<Rightarrow> int \<Rightarrow> int \<Rightarrow> uchar list list" where
  "addWeighted src1 alpha src2 beta gamma =
     map2 (map2 (\<lambda>a b. addWeighted_pixel a alpha b beta gamma)) src1 src2"

text \<open>
  The thresholding block of \<^verbatim>\<open>main\<close> (static pipeline): two \<^verbatim>\<open>inRange\<close> masks, one per
  hue interval, added together.
\<close>

definition threshold_frame :: "settings \<Rightarrow> Vec3b list list \<Rightarrow> uchar list list" where
  "threshold_frame s HSV_frame =
     (let lower_red_threshold =
            inRange HSV_frame (hue_1_min s, saturation_min s, value_min s)
                              (hue_1_max s, saturation_max s, value_max s);
          upper_red_threshold =
            inRange HSV_frame (hue_2_min s, saturation_min s, value_min s)
                              (hue_2_max s, saturation_max s, value_max s)
      in addWeighted lower_red_threshold 1 upper_red_threshold 1 0)"

text \<open>The condition of the specification on one pixel.\<close>

fun in_colour_range :: "settings \<Rightarrow> Vec3b \<Rightarrow> bool" where
  "in_colour_range s (h, sa, v) =
     (((hue_1_min s \<le> uint h \<and> uint h \<le> hue_1_max s) \<or> (hue_2_min s \<le> uint h \<and> uint h \<le> hue_2_max s))
      \<and> (saturation_min s \<le> uint sa \<and> uint sa \<le> saturation_max s)
      \<and> (value_min s \<le> uint v \<and> uint v \<le> value_max s))"

subsection \<open>Points, rectangles and conversions\<close>

text \<open>
  \<^verbatim>\<open>cv::Point\<close> (integer pixel coordinates) and \<^verbatim>\<open>cv::Point2f\<close> with finite
  coordinates.
\<close>

type_synonym Point = "int \<times> int"
type_synonym Point2f = "real \<times> real"

text \<open>The conversion of a \<^verbatim>\<open>double\<close> to an \<^verbatim>\<open>int\<close> in C++: truncation towards zero.\<close>

definition trunc_int :: "real \<Rightarrow> int" where
  "trunc_int v = (if v < 0 then \<lceil>v\<rceil> else \<lfloor>v\<rfloor>)"

text \<open>
  \<^verbatim>\<open>cv::Rect(x, y, width, height)\<close>, its area and its intersection operator \<^verbatim>\<open>&\<close>,
  which yields the empty rectangle \<^verbatim>\<open>Rect()\<close> when the two do not overlap.
\<close>

datatype Rect = Rect (rect_x: int) (rect_y: int) (rect_width: int) (rect_height: int)

definition rect_area :: "Rect \<Rightarrow> int" where
  "rect_area r = rect_width r * rect_height r"

definition rect_and :: "Rect \<Rightarrow> Rect \<Rightarrow> Rect" where
  "rect_and a b =
     (let x1 = max (rect_x a) (rect_x b);
          y1 = max (rect_y a) (rect_y b);
          w = min (rect_x a + rect_width a) (rect_x b + rect_width b) - x1;
          h = min (rect_y a + rect_height a) (rect_y b + rect_height b) - y1
      in if w \<le> 0 \<or> h \<le> 0 then Rect 0 0 0 0 else Rect x1 y1 w h)"

subsection \<open>Single and double precision\<close>

text \<open>
  The result of a floating-point operation: a finite number, an infinity or not a number.
  \<open>fp_less\<close> is the comparison \<^verbatim>\<open><\<close>, which is false whenever an operand is not a number.
\<close>

datatype fp = Fin real | PInf | NInf | NaN

fun fp_less :: "fp \<Rightarrow> fp \<Rightarrow> bool" where
  "fp_less (Fin a) (Fin b) = (a < b)"
| "fp_less (Fin a) PInf = True"
| "fp_less NInf (Fin b) = True"
| "fp_less NInf PInf = True"
| "fp_less a b = False"

text \<open>The nearest integer, a tie going to the even neighbour.\<close>

definition round_half_even :: "real \<Rightarrow> int" where
  "round_half_even v =
     (let f = \<lfloor>v\<rfloor>; d = v - of_int f
      in if d < 1 / 2 then f else if 1 / 2 < d then f + 1 else if even f then f else f + 1)"

text \<open>
  A format has numbers \<open>m * 2 ^ e\<close> with \<open>\<bar>m\<bar> < 2 ^ p\<close> and \<open>emin \<le> e \<le> emax\<close>.  \<open>binade\<close> finds
  the exponent at which a magnitude \<open>a\<close> below \<open>2 ^ p * 2 ^ emax\<close> is rounded: the largest
  \<open>e\<close> up to \<open>emin + n\<close> with \<open>2 ^ (p - 1) * 2 ^ e \<le> a\<close>, and \<open>emin\<close> when there is none (a
  subnormal magnitude).  \<open>fp_round\<close> rounds to the nearest number of the format, a tie
  going to the even \<open>m\<close>; a magnitude that rounds to \<open>2 ^ p * 2 ^ emax\<close> or more overflows
  to an infinity.
\<close>

fun binade :: "nat \<Rightarrow> int \<Rightarrow> nat \<Rightarrow> real \<Rightarrow> int" where
  "binade p emin 0 a = emin"
| "binade p emin (Suc n) a =
     (if 2 ^ (p - 1) * 2 powi (emin + int (Suc n)) \<le> a then emin + int (Suc n)
      else binade p emin n a)"

definition fp_round :: "nat \<Rightarrow> int \<Rightarrow> int \<Rightarrow> real \<Rightarrow> fp" where
  "fp_round p emin emax x =
     (if 2 ^ p * 2 powi emax \<le> \<bar>x\<bar> then (if x < 0 then NInf else PInf)
      else (let e = binade p emin (nat (emax - emin)) \<bar>x\<bar>;
                r = real_of_int (round_half_even (x / 2 powi e)) * 2 powi e
            in if 2 ^ p * 2 powi emax \<le> \<bar>r\<bar> then (if x < 0 then NInf else PInf) else Fin r))"

text \<open>
  \<^verbatim>\<open>float\<close> is binary32: 24 bits, exponents of the last bit from -149 to 104.
  \<^verbatim>\<open>double\<close> is binary64: 53 bits, exponents of the last bit from -1074 to 971.
\<close>

definition binary32 :: "real \<Rightarrow> fp" where
  "binary32 = fp_round 24 (- 149) 104"

definition binary64 :: "real \<Rightarrow> fp" where
  "binary64 = fp_round 53 (- 1074) 971"

text \<open>
  The operations the program applies.  \<open>float_sub\<close> and \<open>float_add\<close> are \<^verbatim>\<open>-\<close> and \<^verbatim>\<open>+\<close> on
  the finite \<^verbatim>\<open>float\<close> coordinates of two points.  \<open>double_times\<close> multiplies by a finite
  \<^verbatim>\<open>double\<close> constant, \<open>float_of_double\<close> is the conversion back to \<^verbatim>\<open>float\<close>;
  \<open>double_square\<close>, \<open>double_add\<close> and \<open>double_sqrt\<close> are \<^verbatim>\<open>x * x\<close>, \<^verbatim>\<open>+\<close> and \<^verbatim>\<open>sqrt\<close> on
  \<^verbatim>\<open>double\<close>.
\<close>

definition float_sub :: "real \<Rightarrow> real \<Rightarrow> fp" where
  "float_sub a b = binary32 (a - b)"

definition float_add :: "real \<Rightarrow> real \<Rightarrow> fp" where
  "float_add a b = binary32 (a + b)"

fun float_of_double :: "fp \<Rightarrow> fp" where
  "float_of_double (Fin a) = binary32 a"
| "float_of_double PInf = PInf"
| "float_of_double NInf = NInf"
| "float_of_double NaN = NaN"

fun double_times :: "fp \<Rightarrow> real \<Rightarrow> fp" where
  "double_times (Fin a) c = binary64 (a * c)"
| "double_times PInf c = (if 0 < c then PInf else if c < 0 then NInf else NaN)"
| "double_times NInf c = (if 0 < c then NInf else if c < 0 then PInf else NaN)"
| "double_times NaN c = NaN"

fun double_square :: "fp \<Rightarrow> fp" where
  "double_square (Fin a) = binary64 (a * a)"
| "double_square PInf = PInf"
| "double_square NInf = PInf"
| "double_square NaN = NaN"

fun double_add :: "fp \<Rightarrow> fp \<Rightarrow> fp" where
  "double_add (Fin a) (Fin b) = binary64 (a + b)"
| "double_add NaN b = NaN"
| "double_add a NaN = NaN"
| "double_add PInf NInf = NaN"
| "double_add NInf PInf = NaN"
| "double_add PInf b = PInf"
| "double_add a PInf = PInf"
| "double_add NInf b = NInf"
| "double_add a NInf = NInf"

fun double_sqrt :: "fp \<Rightarrow> fp" where
  "double_sqrt (Fin a) = (if a < 0 then NaN else binary64 (sqrt a))"
| "double_sqrt PInf = PInf"
| "double_sqrt NInf = NaN"
| "double_sqrt NaN = NaN"

text \<open>
  \<^verbatim>\<open>Point2f - Point2f\<close> and \<^verbatim>\<open>Point2f + Point2f\<close>, computed in \<^verbatim>\<open>float\<close>;
  \<^verbatim>\<open>Point2f * double\<close>, whose product is a \<^verbatim>\<open>double\<close> converted back to \<^verbatim>\<open>float\<close>; and
  \<^verbatim>\<open>cv::norm\<close> of a \<^verbatim>\<open>Point2f\<close>, which is
  \<^verbatim>\<open>sqrt((double)pt.x*pt.x + (double)pt.y*pt.y)\<close>.
\<close>

definition sub2f :: "Point2f \<Rightarrow> Point2f \<Rightarrow> fp \<times> fp" where
  "sub2f a b = (float_sub (fst a) (fst b), float_sub (snd a) (snd b))"

definition add2f :: "Point2f \<Rightarrow> Point2f \<Rightarrow> fp \<times> fp" where
  "add2f a b = (float_add (fst a) (fst b), float_add (snd a) (snd b))"

definition scale2f :: "fp \<times> fp \<Rightarrow> real \<Rightarrow> fp \<times> fp" where
  "scale2f a c = (float_of_double (double_times (fst a) c), float_of_double (double_times (snd a) c))"

definition norm2f :: "fp \<times> fp \<Rightarrow> fp" where
  "norm2f p = double_sqrt (double_add (double_square (fst p)) (double_square (snd p)))"

text \<open>
  \<^verbatim>\<open>cvRound\<close> of a \<^verbatim>\<open>float\<close>: the nearest integer, a tie going to the even neighbour (the
  default rounding mode of the processor).  It is what \<^verbatim>\<open>saturate_cast<int>\<close> applies when
  a \<^verbatim>\<open>Point2f\<close> is converted to a \<^verbatim>\<open>Point\<close>.  The conversion of an infinity, of not a number
  or of a value outside the range of \<^verbatim>\<open>int\<close> is not defined: \<open>None\<close>.
\<close>

fun cvRound :: "fp \<Rightarrow> int option" where
  "cvRound (Fin v) =
     (if - (2 ^ 31) \<le> round_half_even v \<and> round_half_even v < 2 ^ 31
      then Some (round_half_even v) else None)"
| "cvRound PInf = None"
| "cvRound NInf = None"
| "cvRound NaN = None"

definition Point_of :: "fp \<times> fp \<Rightarrow> Point option" where
  "Point_of p =
     (case cvRound (fst p) of
        None \<Rightarrow> None
      | Some x \<Rightarrow> (case cvRound (snd p) of None \<Rightarrow> None | Some y \<Rightarrow> Some (x, y)))"

text \<open>
  The difference of two \<^verbatim>\<open>int\<close> values, not defined when it leaves the range of \<^verbatim>\<open>int\<close>,
  and \<^verbatim>\<open>sqrt(pow(dx, 2) + pow(dy, 2))\<close> on \<^verbatim>\<open>double\<close>, where \<^verbatim>\<open>pow(dx, 2)\<close> is the
  \<^verbatim>\<open>double\<close> nearest to the square (the square itself when it is below \<open>2 ^ 53\<close>).
\<close>

definition int_minus :: "int \<Rightarrow> int \<Rightarrow> int option" where
  "int_minus a b = (if - (2 ^ 31) \<le> a - b \<and> a - b < 2 ^ 31 then Some (a - b) else None)"

definition double_distance :: "int \<Rightarrow> int \<Rightarrow> fp" where
  "double_distance dx dy =
     double_sqrt (double_add (binary64 ((real_of_int dx)\<^sup>2)) (binary64 ((real_of_int dy)\<^sup>2)))"

subsection \<open>Drawing\<close>

text \<open>
  The program's output is the annotated frame.  The drawing calls made on
  \<^verbatim>\<open>original_frame\<close> are kept as a list, in the order of the calls; colour, thickness and
  line type, which are constants of the program, are left out.
\<close>

datatype draw =
    Circle Point int
  | Line Point Point
  | PutText string Point
  | Ellipse Point2f "real \<times> real" real

text \<open>\<^verbatim>\<open>int_to_string\<close>: the decimal digits of a number, with a minus sign when negative.\<close>

fun nat_to_string :: "nat \<Rightarrow> string" where
  "nat_to_string n =
     (if n < 10 then [char_of (48 + n)]
      else nat_to_string (n div 10) @ [char_of (48 + n mod 10)])"

definition int_to_string :: "int \<Rightarrow> string" where
  "int_to_string number =
     (if number < 0 then CHR ''-'' # nat_to_string (nat (- number)) else nat_to_string (nat number))"

text \<open>
  \<^verbatim>\<open>draw_object_position\<close>: crosshairs centred at \<open>(x, y)\<close>, each arm clipped at the border
  of the frame, the circle in the static pipeline only (\<open>camshift\<close> is the compile-time
  switch \<^verbatim>\<open>CAMSHIFT\<close>), and the coordinates as text.  A \<^verbatim>\<open>double\<close> passed where
  \<^verbatim>\<open>Point\<close> or \<^verbatim>\<open>circle\<close> expects an \<^verbatim>\<open>int\<close> is truncated.
\<close>

definition draw_object_position :: "bool \<Rightarrow> int \<times> int \<Rightarrow> int \<Rightarrow> int \<Rightarrow> real \<Rightarrow> draw list" where
  "draw_object_position camshift resized_video_size x y radius =
     (let width = fst resized_video_size; height = snd resized_video_size
      in (if camshift then [] else [Circle (x, y) (trunc_int radius)])
         @ [if real_of_int y - radius > 0 then Line (x, y) (x, trunc_int (real_of_int y - radius))
            else Line (x, y) (x, 0),
            if real_of_int y + radius < real_of_int height
            then Line (x, y) (x, trunc_int (real_of_int y + radius))
            else Line (x, y) (x, height),
            if real_of_int x - radius > 0 then Line (x, y) (trunc_int (real_of_int x - radius), y)
            else Line (x, y) (0, y),
            if real_of_int x + radius < real_of_int width
            then Line (x, y) (trunc_int (real_of_int x + radius), y)
            else Line (x, y) (width, y),
            PutText (''['' @ int_to_string x @ '','' @ int_to_string y @ '']'')
                    (x, trunc_int (real_of_int y + radius + 20))])"

subsection \<open>Pose from the bounding rectangle\<close>

text \<open>
  \<^verbatim>\<open>Point2f rectangle_points[4]\<close>, as filled by \<^verbatim>\<open>RotatedRect::points\<close>.  Every index the
  program uses is reduced modulo 4.
\<close>

datatype corners = Corners Point2f Point2f Point2f Point2f

fun corner :: "corners \<Rightarrow> nat \<Rightarrow> Point2f" where
  "corner (Corners p0 p1 p2 p3) j =
     (if j = 0 then p0 else if j = 1 then p1 else if j = 2 then p2 else p3)"

text \<open>The largest finite \<^verbatim>\<open>double\<close> and the largest finite \<^verbatim>\<open>float\<close>.\<close>

definition DBL_MAX :: real where
  "DBL_MAX = 2 ^ 1024 - 2 ^ 971"

definition FLT_MAX :: real where
  "FLT_MAX = 2 ^ 128 - 2 ^ 104"

text \<open>
  The loop over the four sides, shared by \<^verbatim>\<open>draw_principal_axis\<close> and \<^verbatim>\<open>get_size\<close>.
  \<^verbatim>\<open>shortest_axis\<close> starts at \<^verbatim>\<open>DBL_MAX\<close>; \<^verbatim>\<open>shortest_axis_index\<close> is declared without
  a value, which is \<open>None\<close> here, and is assigned only inside the \<^verbatim>\<open>if\<close>.  The difference
  of the two corners is a \<^verbatim>\<open>Point2f\<close>, its norm a \<^verbatim>\<open>double\<close>.
\<close>

definition line_length :: "corners \<Rightarrow> nat \<Rightarrow> fp" where
  "line_length rectangle_points j =
     norm2f (sub2f (corner rectangle_points j) (corner rectangle_points ((j + 1) mod 4)))"

definition side_step :: "corners \<Rightarrow> nat \<Rightarrow> fp \<times> nat option \<Rightarrow> fp \<times> nat option" where
  "side_step rectangle_points j st =
     (if fp_less (line_length rectangle_points j) (fst st)
      then (line_length rectangle_points j, Some j) else st)"

definition shortest_side :: "corners \<Rightarrow> fp \<times> nat option" where
  "shortest_side rectangle_points =
     fold (side_step rectangle_points) [0, 1, 2, 3] (Fin DBL_MAX, None)"

text \<open>
  The two midpoints are declared \<^verbatim>\<open>Point\<close>, so each \<^verbatim>\<open>Point2f\<close> expression, computed in
  \<^verbatim>\<open>float\<close>, is converted to integer coordinates.  Reading the index while it has no
  value is undefined behaviour of the program, and so is a conversion that is not
  defined: the functions return \<open>None\<close> there.
\<close>

definition shortest_axis_midpoints :: "corners \<Rightarrow> (Point \<times> Point) option" where
  "shortest_axis_midpoints rectangle_points =
     (case snd (shortest_side rectangle_points) of
        None \<Rightarrow> None
      | Some shortest_axis_index \<Rightarrow>
          (case Point_of (scale2f (add2f (corner rectangle_points shortest_axis_index)
                                         (corner rectangle_points ((shortest_axis_index + 1) mod 4)))
                                  (1 / 2)) of
             None \<Rightarrow> None
           | Some shortest_axis_midpoint_1 \<Rightarrow>
               (case Point_of (scale2f (add2f (corner rectangle_points ((shortest_axis_index + 2) mod 4))
                                              (corner rectangle_points ((shortest_axis_index + 3) mod 4)))
                                       (1 / 2)) of
                  None \<Rightarrow> None
                | Some shortest_axis_midpoint_2 \<Rightarrow>
                    Some (shortest_axis_midpoint_1, shortest_axis_midpoint_2))))"

text \<open>
  \<^verbatim>\<open>draw_principal_axis\<close> and \<^verbatim>\<open>get_size\<close>.  \<open>points\<close> is \<^verbatim>\<open>RotatedRect::points\<close>; the
  rotated rectangle itself is of any type \<open>'r\<close>, since only its corners are used.  The
  size is a \<^verbatim>\<open>double\<close>: the distance comes from two \<^verbatim>\<open>int\<close> differences, so it is finite,
  and 0 or at least 1, so that halving it is exact.
\<close>

definition draw_principal_axis :: "('r \<Rightarrow> corners) \<Rightarrow> 'r \<Rightarrow> draw option" where
  "draw_principal_axis points rectangle =
     (case shortest_axis_midpoints (points rectangle) of
        None \<Rightarrow> None
      | Some (shortest_axis_midpoint_1, shortest_axis_midpoint_2) \<Rightarrow>
          Some (Line shortest_axis_midpoint_1 shortest_axis_midpoint_2))"

definition get_size :: "('r \<Rightarrow> corners) \<Rightarrow> 'r \<Rightarrow> real option" where
  "get_size points rectangle =
     (case shortest_axis_midpoints (points rectangle) of
        None \<Rightarrow> None
      | Some (shortest_axis_midpoint_1, shortest_axis_midpoint_2) \<Rightarrow>
          (case int_minus (fst shortest_axis_midpoint_1) (fst shortest_axis_midpoint_2) of
             None \<Rightarrow> None
           | Some dx \<Rightarrow>
               (case int_minus (snd shortest_axis_midpoint_1) (snd shortest_axis_midpoint_2) of
                  None \<Rightarrow> None
                | Some dy \<Rightarrow>
                    (case double_distance dx dy of
                       Fin d \<Rightarrow> Some (d / 2)
                     | PInf \<Rightarrow> None
                     | NInf \<Rightarrow> None
                     | NaN \<Rightarrow> None))))"

text \<open>
  For the statements.  The midpoint of side \<open>k\<close> (which joins corners \<open>k\<close> and \<open>k + 1\<close>,
  indices modulo 4) as the program computes it in \<^verbatim>\<open>float\<close>, and the exact midpoint and
  the exact Euclidean distance.  Corners with all coordinates of magnitude at most a
  bound: \<open>2 ^ 24\<close> for \<open>frame_corners\<close>; \<open>2 ^ 29\<close> for \<open>pixel_corners\<close>, for which the rounded
  midpoints and their differences are within the range of \<^verbatim>\<open>int\<close>; half of \<^verbatim>\<open>FLT_MAX\<close>
  for \<open>half_range_corners\<close>; \<^verbatim>\<open>FLT_MAX\<close> itself, that is any finite \<^verbatim>\<open>float\<close>, for
  \<open>finite_corners\<close>.
\<close>

definition edge_midpoint :: "corners \<Rightarrow> nat \<Rightarrow> fp \<times> fp" where
  "edge_midpoint rectangle_points k =
     scale2f (add2f (corner rectangle_points (k mod 4)) (corner rectangle_points ((k + 1) mod 4))) (1 / 2)"

definition exact_midpoint :: "corners \<Rightarrow> nat \<Rightarrow> Point2f" where
  "exact_midpoint rectangle_points k =
     ((fst (corner rectangle_points (k mod 4)) + fst (corner rectangle_points ((k + 1) mod 4))) / 2,
      (snd (corner rectangle_points (k mod 4)) + snd (corner rectangle_points ((k + 1) mod 4))) / 2)"

definition euclidean_distance :: "Point2f \<Rightarrow> Point2f \<Rightarrow> real" where
  "euclidean_distance a b = sqrt ((fst a - fst b)\<^sup>2 + (snd a - snd b)\<^sup>2)"

fun corners_within :: "real \<Rightarrow> corners \<Rightarrow> bool" where
  "corners_within bound (Corners p0 p1 p2 p3) =
     (\<bar>fst p0\<bar> \<le> bound \<and> \<bar>snd p0\<bar> \<le> bound \<and> \<bar>fst p1\<bar> \<le> bound \<and> \<bar>snd p1\<bar> \<le> bound
      \<and> \<bar>fst p2\<bar> \<le> bound \<and> \<bar>snd p2\<bar> \<le> bound \<and> \<bar>fst p3\<bar> \<le> bound \<and> \<bar>snd p3\<bar> \<le> bound)"

definition frame_corners :: "corners \<Rightarrow> bool" where
  "frame_corners rectangle_points = corners_within (2 ^ 24) rectangle_points"

definition half_range_corners :: "corners \<Rightarrow> bool" where
  "half_range_corners rectangle_points = corners_within (FLT_MAX / 2) rectangle_points"

definition pixel_range :: "real \<Rightarrow> bool" where
  "pixel_range v = (\<bar>v\<bar> \<le> 2 ^ 29)"

fun pixel_corners :: "corners \<Rightarrow> bool" where
  "pixel_corners (Corners p0 p1 p2 p3) =
     (pixel_range (fst p0) \<and> pixel_range (snd p0) \<and> pixel_range (fst p1) \<and> pixel_range (snd p1)
      \<and> pixel_range (fst p2) \<and> pixel_range (snd p2) \<and> pixel_range (fst p3) \<and> pixel_range (snd p3))"

definition finite_float :: "real \<Rightarrow> bool" where
  "finite_float v = (\<bar>v\<bar> \<le> FLT_MAX)"

fun finite_corners :: "corners \<Rightarrow> bool" where
  "finite_corners (Corners p0 p1 p2 p3) =
     (finite_float (fst p0) \<and> finite_float (snd p0) \<and> finite_float (fst p1) \<and> finite_float (snd p1)
      \<and> finite_float (fst p2) \<and> finite_float (snd p2) \<and> finite_float (fst p3) \<and> finite_float (snd p3))"

subsection \<open>Blob selection and pose (static pipeline)\<close>

text \<open>
  The spatial moments the program reads from \<^verbatim>\<open>cv::Moments\<close>, a contour, and an entry of
  the hierarchy (\<^verbatim>\<open>Vec4i\<close>: next sibling, previous sibling, first child, parent; a
  negative number means none).
\<close>

record Moments =
  m00 :: real
  m10 :: real
  m01 :: real

type_synonym contour = "Point list"
type_synonym Vec4i = "int \<times> int \<times> int \<times> int"

definition MIN_BLOB_AREA :: int where
  "MIN_BLOB_AREA = 1 * 1"

text \<open>
  The variables of the search for the largest blob.  The three \<^verbatim>\<open>max_area_...\<close>
  variables for position and index are declared \<^verbatim>\<open>double\<close> in the program and only ever
  hold integers.
\<close>

record blob_search =
  object_found :: bool
  max_area :: real
  max_area_object_x :: int
  max_area_object_y :: int
  max_area_contour_index :: int

definition blob_search_start :: blob_search where
  "blob_search_start =
     \<lparr>object_found = False, max_area = 0, max_area_object_x = 0, max_area_object_y = 0,
      max_area_contour_index = - 1\<rparr>"

text \<open>
  The body of the loop for contour \<open>i\<close>.  \<open>moments\<close> is \<^verbatim>\<open>cv::moments\<close>; \<open>MAX_BLOB_AREA\<close> is
  the global set at start-up to the number of pixels of a processed frame.  The
  coordinates \<^verbatim>\<open>x\<close> and \<^verbatim>\<open>y\<close> are \<^verbatim>\<open>int\<close>, so the quotients are truncated.
\<close>

definition blob_step ::
  "(contour \<Rightarrow> Moments) \<Rightarrow> int \<Rightarrow> contour list \<Rightarrow> nat \<Rightarrow> blob_search \<Rightarrow> blob_search" where
  "blob_step moments MAX_BLOB_AREA contours i st =
     (let moment = moments (contours ! i);
          area = m00 moment
      in if area > real_of_int MIN_BLOB_AREA \<and> area < real_of_int MAX_BLOB_AREA
         then (let x = trunc_int (m10 moment / area);
                   y = trunc_int (m01 moment / area);
                   st1 = st\<lparr>object_found := True\<rparr>
               in if area > max_area st1
                  then st1\<lparr>max_area := area, max_area_object_x := x, max_area_object_y := y,
                          max_area_contour_index := int i\<rparr>
                  else st1)
         else st)"

text \<open>
  \<^verbatim>\<open>for (int i = 0; i >= 0; i = hierarchy[i][0])\<close>.  The loop follows the next-sibling
  links and may not end when they form a cycle; on a hierarchy with \<open>n\<close> entries a
  walk that ends takes at most \<open>n\<close> steps, so the loop is run with fuel \<open>n\<close>.  \<open>None\<close>
  stands for a walk that does not end or that leaves the vectors.
\<close>

fun blob_loop ::
  "nat \<Rightarrow> (contour \<Rightarrow> Moments) \<Rightarrow> int \<Rightarrow> contour list \<Rightarrow> Vec4i list \<Rightarrow> int \<Rightarrow> blob_search
     \<Rightarrow> blob_search option" where
  "blob_loop 0 moments MAX_BLOB_AREA contours hierarchy i st =
     (if i < 0 then Some st else None)"
| "blob_loop (Suc fuel) moments MAX_BLOB_AREA contours hierarchy i st =
     (if i < 0 then Some st
      else if length contours \<le> nat i \<or> length hierarchy \<le> nat i then None
      else blob_loop fuel moments MAX_BLOB_AREA contours hierarchy (fst (hierarchy ! nat i))
             (blob_step moments MAX_BLOB_AREA contours (nat i) st))"

text \<open>
  The search as \<^verbatim>\<open>main\<close> runs it, guarded by \<^verbatim>\<open>hierarchy.size() > 0\<close>.  With an empty
  hierarchy only \<^verbatim>\<open>object_found = false\<close> exists; the other variables are given their
  initial values.
\<close>

definition select_blob ::
  "(contour \<Rightarrow> Moments) \<Rightarrow> int \<Rightarrow> contour list \<Rightarrow> Vec4i list \<Rightarrow> blob_search option" where
  "select_blob moments MAX_BLOB_AREA contours hierarchy =
     (if length hierarchy > 0
      then blob_loop (length hierarchy) moments MAX_BLOB_AREA contours hierarchy 0 blob_search_start
      else Some blob_search_start)"

text \<open>
  The object-tracking block of the static pipeline, from the contours to the drawing.
  \<open>fitEllipse\<close> is \<^verbatim>\<open>cv::fitEllipse\<close> and \<open>points\<close> is \<^verbatim>\<open>RotatedRect::points\<close>.  The result
  is the state of the search and the drawing calls made on the frame.  (The minimum-area
  rectangle the program also computes is never used.)
\<close>

definition draw_pose ::
  "(contour \<Rightarrow> 'r) \<Rightarrow> ('r \<Rightarrow> corners) \<Rightarrow> int \<times> int \<Rightarrow> contour list \<Rightarrow> blob_search
     \<Rightarrow> draw list option" where
  "draw_pose fitEllipse points resized_video_size contours st =
     (if object_found st
      then (if max_area_contour_index st < 0
               \<or> int (length contours) \<le> max_area_contour_index st then None
            else if length (contours ! nat (max_area_contour_index st)) > 4
            then (let min_ellipse = fitEllipse (contours ! nat (max_area_contour_index st))
                  in case draw_principal_axis points min_ellipse of
                       None \<Rightarrow> None
                     | Some axis \<Rightarrow>
                         (case get_size points min_ellipse of
                            None \<Rightarrow> None
                          | Some object_size \<Rightarrow>
                              Some (axis # draw_object_position False resized_video_size
                                             (max_area_object_x st) (max_area_object_y st)
                                             object_size)))
            else Some [])
      else Some [])"

definition track_static ::
  "(contour \<Rightarrow> Moments) \<Rightarrow> (contour \<Rightarrow> 'r) \<Rightarrow> ('r \<Rightarrow> corners) \<Rightarrow> int \<Rightarrow> int \<times> int
     \<Rightarrow> contour list \<Rightarrow> Vec4i list \<Rightarrow> (blob_search \<times> draw list) option" where
  "track_static moments fitEllipse points MAX_BLOB_AREA resized_video_size contours hierarchy =
     (if length hierarchy > 0
      then (case select_blob moments MAX_BLOB_AREA contours hierarchy of
              None \<Rightarrow> None
            | Some st \<Rightarrow>
                (case draw_pose fitEllipse points resized_video_size contours st of
                   None \<Rightarrow> None
                 | Some overlay \<Rightarrow> Some (st, overlay)))
      else Some (blob_search_start, [PutText ''EMILY not found!'' (50, 50)]))"

text \<open>
  The order in which the loop visits the contours: \<open>sibling_chain hierarchy i order\<close>
  holds when following the next-sibling links from \<open>i\<close> visits exactly \<open>order\<close> and then
  reaches a negative link.
\<close>

fun sibling_chain :: "Vec4i list \<Rightarrow> int \<Rightarrow> nat list \<Rightarrow> bool" where
  "sibling_chain hierarchy i [] = (i < 0)"
| "sibling_chain hierarchy i (k # ks) =
     (i = int k \<and> k < length hierarchy \<and> sibling_chain hierarchy (fst (hierarchy ! k)) ks)"

text \<open>
  For the statements: the area of contour \<open>i\<close>, the area limits, the centroid as the
  program computes it, and whether the crosshairs of a position are among the drawing
  calls.
\<close>

definition blob_area :: "(contour \<Rightarrow> Moments) \<Rightarrow> contour list \<Rightarrow> nat \<Rightarrow> real" where
  "blob_area moments contours i = m00 (moments (contours ! i))"

definition within_limits :: "int \<Rightarrow> real \<Rightarrow> bool" where
  "within_limits MAX_BLOB_AREA a = (real_of_int MIN_BLOB_AREA < a \<and> a < real_of_int MAX_BLOB_AREA)"

definition centroid :: "Moments \<Rightarrow> Point" where
  "centroid moment = (trunc_int (m10 moment / m00 moment), trunc_int (m01 moment / m00 moment))"


fun starts_at :: "Point \<Rightarrow> draw \<Rightarrow> bool" where
  "starts_at p (Line a b) = (a = p)"
| "starts_at p (Circle a r) = False"
| "starts_at p (PutText t a) = False"
| "starts_at p (Ellipse a sz an) = False"

definition position_drawn :: "draw list \<Rightarrow> Point \<Rightarrow> bool" where
  "position_drawn overlay p = list_ex (starts_at p) overlay"

text \<open>
  The contour step with its images.  A \<^verbatim>\<open>Mat\<close> is a header that points at a pixel
  buffer; the buffers are kept in a list, a \<^verbatim>\<open>Mat\<close> being the index of its buffer.
  \<^verbatim>\<open>copyTo\<close> into a newly declared \<^verbatim>\<open>Mat\<close> allocates a buffer and copies the pixels.
  \<^verbatim>\<open>findContours\<close> may overwrite the image it is given: the parameter \<open>findContours\<close>
  returns the pixels it leaves behind together with the contours and the hierarchy.
\<close>

type_synonym Mat = nat
type_synonym buffers = "uchar list list list"

definition copyTo :: "Mat \<Rightarrow> buffers \<Rightarrow> Mat \<times> buffers" where
  "copyTo src mem = (length mem, mem @ [mem ! src])"

definition findContours_on ::
  "(uchar list list \<Rightarrow> uchar list list \<times> contour list \<times> Vec4i list) \<Rightarrow> Mat \<Rightarrow> buffers
     \<Rightarrow> (contour list \<times> Vec4i list) \<times> buffers" where
  "findContours_on findContours frame mem =
     (case findContours (mem ! frame) of
        (left_behind, contours, hierarchy) \<Rightarrow> ((contours, hierarchy), mem[frame := left_behind]))"

definition find_and_select ::
  "(uchar list list \<Rightarrow> uchar list list \<times> contour list \<times> Vec4i list) \<Rightarrow> (contour \<Rightarrow> Moments)
     \<Rightarrow> int \<Rightarrow> Mat \<Rightarrow> buffers \<Rightarrow> blob_search option \<times> buffers" where
  "find_and_select findContours moments MAX_BLOB_AREA eroded_dilated_threshold mem =
     (case copyTo eroded_dilated_threshold mem of
        (contours_frame, mem1) \<Rightarrow>
          (case findContours_on findContours contours_frame mem1 of
             ((contours, hierarchy), mem2) \<Rightarrow>
               (select_blob moments MAX_BLOB_AREA contours hierarchy, mem2)))"

text \<open>
  For the examples: the moments of a polygon by Green's formula, which is how
  \<^verbatim>\<open>cv::moments\<close> treats a contour, and axis-parallel boxes as contours, three of
  them linked as siblings.
\<close>

fun green_sums :: "Point \<Rightarrow> contour \<Rightarrow> real \<times> real \<times> real" where
  "green_sums prev [] = (0, 0, 0)"
| "green_sums prev (cur # rest) =
     (let dxy = real_of_int (fst prev * snd cur - fst cur * snd prev);
          acc = green_sums cur rest
      in (fst acc + dxy,
          fst (snd acc) + dxy * real_of_int (fst prev + fst cur),
          snd (snd acc) + dxy * real_of_int (snd prev + snd cur)))"

definition polygon_moments :: "contour \<Rightarrow> Moments" where
  "polygon_moments c =
     (if c = [] then \<lparr>m00 = 0, m10 = 0, m01 = 0\<rparr>
      else (let acc = green_sums (last c) c
            in if fst acc > 0
               then \<lparr>m00 = fst acc / 2, m10 = fst (snd acc) / 6, m01 = snd (snd acc) / 6\<rparr>
               else \<lparr>m00 = - fst acc / 2, m10 = - fst (snd acc) / 6, m01 = - snd (snd acc) / 6\<rparr>))"

definition box_contour :: "int \<Rightarrow> int \<Rightarrow> int \<Rightarrow> int \<Rightarrow> contour" where
  "box_contour x y w h = [(x, y), (x, y + h), (x + w, y + h), (x + w, y)]"

definition example_contours :: "contour list" where
  "example_contours = [box_contour 40 0 5 5, box_contour 0 0 10 10, box_contour 20 20 10 10]"

definition example_hierarchy :: "Vec4i list" where
  "example_hierarchy = [(1, - 1, - 1, - 1), (2, 0, - 1, - 1), (- 1, 1, - 1, - 1)]"

subsection \<open>The adaptive tracker (CamShift pipeline)\<close>

text \<open>The mouse events of the window system, as OpenCV numbers them from 0.\<close>

datatype MouseEvent =
    EVENT_MOUSEMOVE | EVENT_LBUTTONDOWN | EVENT_RBUTTONDOWN | EVENT_MBUTTONDOWN
  | EVENT_LBUTTONUP | EVENT_RBUTTONUP | EVENT_MBUTTONUP
  | EVENT_LBUTTONDBLCLK | EVENT_RBUTTONDBLCLK | EVENT_MBUTTONDBLCLK

text \<open>
  The variables the mouse handler, the key handler and the tracking block share: the
  globals \<^verbatim>\<open>back_projection_mode\<close>, \<^verbatim>\<open>select_object\<close>, \<^verbatim>\<open>track_object\<close>, \<^verbatim>\<open>origin\<close>,
  \<^verbatim>\<open>selection\<close>, the size of \<^verbatim>\<open>original_frame\<close>, and the locals \<^verbatim>\<open>object_of_interest\<close>,
  \<^verbatim>\<open>histogram\<close> and \<^verbatim>\<open>paused\<close> of \<^verbatim>\<open>main\<close>.  The histogram is of any type \<open>'h\<close>.
\<close>

record 'h tracker =
  back_projection_mode :: bool
  select_object :: bool
  track_object :: int
  origin :: Point
  selection :: Rect
  frame_cols :: int
  frame_rows :: int
  object_of_interest :: Rect
  histogram :: 'h
  paused :: bool

text \<open>\<^verbatim>\<open>onMouse\<close>: first the update of the selection while selecting, then the \<^verbatim>\<open>switch\<close>.\<close>

definition onMouse :: "MouseEvent \<Rightarrow> int \<Rightarrow> int \<Rightarrow> 'h tracker \<Rightarrow> 'h tracker" where
  "onMouse event x y t =
     (let t1 = (if select_object t
                then t\<lparr>selection :=
                        rect_and (Rect (min x (fst (origin t))) (min y (snd (origin t)))
                                       \<bar>x - fst (origin t)\<bar> \<bar>y - snd (origin t)\<bar>)
                                 (Rect 0 0 (frame_cols t) (frame_rows t))\<rparr>
                else t)
      in case event of
           EVENT_RBUTTONDOWN \<Rightarrow>
             t1\<lparr>origin := (x, y), selection := Rect x y 0 0, select_object := True\<rparr>
         | EVENT_LBUTTONUP \<Rightarrow>
             (let t2 = t1\<lparr>select_object := False\<rparr>
              in if rect_width (selection t2) > 0 \<and> rect_height (selection t2) > 0
                 then t2\<lparr>track_object := - 1\<rparr> else t2)
         | _ \<Rightarrow> t1)"

text \<open>The keys \<^verbatim>\<open>b\<close>, \<^verbatim>\<open>c\<close> and \<^verbatim>\<open>p\<close> of the main loop.\<close>

definition on_key :: "char \<Rightarrow> 'h tracker \<Rightarrow> 'h tracker" where
  "on_key character t =
     (if character = CHR ''b'' then t\<lparr>back_projection_mode := \<not> back_projection_mode t\<rparr>
      else if character = CHR ''c'' then t\<lparr>track_object := 0\<rparr>
      else if character = CHR ''p'' then t\<lparr>paused := \<not> paused t\<rparr>
      else t)"

text \<open>
  The body of \<^verbatim>\<open>if (object_of_interest.area() <= 1)\<close>, with \<open>window\<close> for the value
  of \<^verbatim>\<open>object_of_interest\<close> before the assignment.  The frame sizes are not negative, so
  the division of C++ is \<open>div\<close>.
\<close>

definition reinflate :: "Rect \<Rightarrow> int \<Rightarrow> int \<Rightarrow> Rect" where
  "reinflate window cols rows =
     (let new_rectangle_size = (min cols rows + 5) div 6
      in rect_and (Rect (rect_x window - new_rectangle_size)
                        (rect_y window - new_rectangle_size)
                        (rect_x window + new_rectangle_size)
                        (rect_y window + new_rectangle_size))
                  (Rect 0 0 cols rows))"

text \<open>\<^verbatim>\<open>cv::RotatedRect\<close>: centre, size (width, height) and angle.\<close>

record RotatedRect =
  rr_center :: Point2f
  rr_size :: "real \<times> real"
  rr_angle :: real

text \<open>
  The tracking block of the main loop for one frame.  \<open>calcHist\<close> stands for the hue
  histogram of the selection under the saturation and value mask, normalised;
  \<open>CamShift\<close> for the back projection of the histogram, masked, followed by
  \<^verbatim>\<open>cv::CamShift\<close>, which returns the tracking box and updates the window it is given.
  The result is the new state of the variables and the drawing calls; the drawing is
  \<open>None\<close> where \<^verbatim>\<open>draw_principal_axis\<close> reads its index without a value.  (The picture of
  the histogram and the back-projection view only change what is displayed.)
\<close>

definition draw_tracking_box ::
  "(RotatedRect \<Rightarrow> corners) \<Rightarrow> int \<times> int \<Rightarrow> RotatedRect \<Rightarrow> draw list option" where
  "draw_tracking_box points resized_video_size tracking_box =
     (if snd (rr_size tracking_box) > 0 \<and> fst (rr_size tracking_box) > 0
      then (case draw_principal_axis points tracking_box of
              None \<Rightarrow> None
            | Some axis \<Rightarrow>
                Some (Ellipse (rr_center tracking_box) (rr_size tracking_box) (rr_angle tracking_box)
                      # draw_object_position True resized_video_size
                          (trunc_int (fst (rr_center tracking_box)))
                          (trunc_int (snd (rr_center tracking_box)))
                          (min (fst (rr_size tracking_box)) (snd (rr_size tracking_box)) / 2)
                      @ [axis]))
      else Some [])"

definition track_camshift ::
  "('f \<Rightarrow> Rect \<Rightarrow> 'h) \<Rightarrow> ('f \<Rightarrow> 'h \<Rightarrow> Rect \<Rightarrow> RotatedRect \<times> Rect) \<Rightarrow> (RotatedRect \<Rightarrow> corners)
     \<Rightarrow> int \<times> int \<Rightarrow> 'f \<Rightarrow> 'h tracker \<Rightarrow> 'h tracker \<times> draw list option" where
  "track_camshift calcHist CamShift points resized_video_size frame t =
     (if \<not> paused t
      then (if track_object t \<noteq> 0
            then (let t1 = (if track_object t < 0
                            then t\<lparr>histogram := calcHist frame (selection t),
                                   object_of_interest := selection t,
                                   track_object := 1\<rparr>
                            else t);
                      tracked = CamShift frame (histogram t1) (object_of_interest t1);
                      tracking_box = fst tracked;
                      t2 = t1\<lparr>object_of_interest := snd tracked\<rparr>;
                      t3 = (if rect_area (object_of_interest t2) \<le> 1
                            then t2\<lparr>object_of_interest :=
                                      reinflate (object_of_interest t2) (frame_cols t2) (frame_rows t2)\<rparr>
                            else t2)
                  in (t3, draw_tracking_box points resized_video_size tracking_box))
            else (t, Some []))
      else if track_object t < 0 then (t\<lparr>paused := False\<rparr>, Some []) else (t, Some []))"

text \<open>
  The states of the specification, read off the variables: Selecting while
  \<^verbatim>\<open>select_object\<close> is set, Initializing while \<^verbatim>\<open>track_object\<close> is negative, Paused while
  \<^verbatim>\<open>paused\<close> is set, otherwise Idle when \<^verbatim>\<open>track_object\<close> is 0 and Tracking when it is
  positive.  And a selection made with the mouse: button down at \<open>p0\<close>, moves through
  \<open>moves\<close>, button up at \<open>p1\<close>.
\<close>

datatype TrackState = Idle | Selecting | Initializing | Tracking | Paused

definition track_state :: "'h tracker \<Rightarrow> TrackState" where
  "track_state t =
     (if select_object t then Selecting
      else if track_object t < 0 then Initializing
      else if paused t then Paused
      else if track_object t = 0 then Idle
      else Tracking)"

definition selection_gesture :: "Point \<Rightarrow> Point list \<Rightarrow> Point \<Rightarrow> 'h tracker \<Rightarrow> 'h tracker" where
  "selection_gesture p0 moves p1 t =
     onMouse EVENT_LBUTTONUP (fst p1) (snd p1)
       (fold (\<lambda>p. onMouse EVENT_MOUSEMOVE (fst p) (snd p)) moves
          (onMouse EVENT_RBUTTONDOWN (fst p0) (snd p0) t))"

text \<open>
  The window the specification describes for a lost target: a square of half-extent
  \<open>(min rows cols + 5) / 6\<close> centred at the last location, clipped to the frame.
\<close>

definition centred_window :: "Rect \<Rightarrow> int \<Rightarrow> int \<Rightarrow> Rect" where
  "centred_window window cols rows =
     (let half_extent = (min rows cols + 5) div 6
      in rect_and (Rect (rect_x window - half_extent)
                        (rect_y window - half_extent)
                        (2 * half_extent) (2 * half_extent))
                  (Rect 0 0 cols rows))"

text \<open>For the examples: a tracker at program start on a 640 by 480 video.\<close>

definition example_tracker :: "nat tracker" where
  "example_tracker =
     \<lparr>back_projection_mode = False, select_object = False, track_object = 0, origin = (0, 0),
      selection = Rect 0 0 0 0, frame_cols = 640, frame_rows = 480,
      object_of_interest = Rect 0 0 0 0, histogram = 0, paused = False\<rparr>"

text \<open>
  Concrete rectangles used in the examples.  The tilted one has sides \<open>5/8\<close> and \<open>35/8\<close>
  along the directions \<open>(-4, 3)\<close> and \<open>(3, 4)\<close> and centre \<open>(25/16, 2)\<close>; the extreme one
  is the square with corners at the largest finite \<^verbatim>\<open>float\<close>.  All their coordinates are
  \<^verbatim>\<open>float\<close> values.
\<close>

definition example_rectangle :: corners where
  "example_rectangle = Corners (1 / 2, 0) (0, 1 / 2) (3 / 2, 2) (2, 3 / 2)"

definition tilted_rectangle :: corners where
  "tilted_rectangle = Corners (0, 7 / 16) (1 / 2, 1 / 16) (25 / 8, 57 / 16) (21 / 8, 63 / 16)"

definition extreme_square :: corners where
  "extreme_square =
     Corners (FLT_MAX, FLT_MAX) (- FLT_MAX, FLT_MAX) (- FLT_MAX, - FLT_MAX) (FLT_MAX, - FLT_MAX)"

section \<open>Theorems\<close>

subsection \<open>Configuration normalisation\<close>

lemma c_rem_2_even: "c_rem a 2 = 0 \<longleftrightarrow> even a"
  by (auto simp: c_rem_def sgn_if abs_if even_iff_mod_2_eq_zero)

text \<open>
  Claim C7.  Whenever the trackbar handler runs, an even blur kernel size is replaced by
  the next odd value (20 becomes 21), an erode size of 0 becomes 1 and a dilate size of 0
  becomes 1; an odd blur size and nonzero erode and dilate sizes pass through unchanged,
  and so do all the thresholds.  Nothing is rejected: the handler always returns settings.
\<close>

theorem on_trackbar_normalizes:
  "blur_kernel_size (on_trackbar s) =
     (if even (blur_kernel_size s) then blur_kernel_size s + 1 else blur_kernel_size s)
   \<and> odd (blur_kernel_size (on_trackbar s))
   \<and> erode_size (on_trackbar s) = (if erode_size s = 0 then 1 else erode_size s)
   \<and> dilate_size (on_trackbar s) = (if dilate_size s = 0 then 1 else dilate_size s)
   \<and> blur_kernel_size (on_trackbar (s\<lparr>blur_kernel_size := 20\<rparr>)) = 21
   \<and> hue_1_min (on_trackbar s) = hue_1_min s \<and> hue_1_max (on_trackbar s) = hue_1_max s
   \<and> hue_2_min (on_trackbar s) = hue_2_min s \<and> hue_2_max (on_trackbar s) = hue_2_max s
   \<and> saturation_min (on_trackbar s) = saturation_min s
   \<and> saturation_max (on_trackbar s) = saturation_max s
   \<and> value_min (on_trackbar s) = value_min s \<and> value_max (on_trackbar s) = value_max s"
  by (simp add: on_trackbar_def Let_def c_rem_2_even)

theorem on_trackbar_normalizes_witness:
  "blur_kernel_size (on_trackbar (initial_settings\<lparr>blur_kernel_size := 20, erode_size := 0, dilate_size := 0\<rparr>)) = 21
   \<and> erode_size (on_trackbar (initial_settings\<lparr>blur_kernel_size := 20, erode_size := 0, dilate_size := 0\<rparr>)) = 1
   \<and> dilate_size (on_trackbar (initial_settings\<lparr>blur_kernel_size := 20, erode_size := 0, dilate_size := 0\<rparr>)) = 1
   \<and> blur_kernel_size (on_trackbar initial_settings) = 21
   \<and> erode_size (on_trackbar initial_settings) = 2
   \<and> dilate_size (on_trackbar initial_settings) = 16"
  using on_trackbar_normalizes [of "initial_settings\<lparr>blur_kernel_size := 20, erode_size := 0, dilate_size := 0\<rparr>"]
    on_trackbar_normalizes [of initial_settings]
  by (simp add: initial_settings_def)

subsection \<open>The colour mask\<close>

lemma threshold_pixel:
  "addWeighted_pixel
     (inRange_pixel p (hue_1_min s, saturation_min s, value_min s)
                      (hue_1_max s, saturation_max s, value_max s)) 1
     (inRange_pixel p (hue_2_min s, saturation_min s, value_min s)
                      (hue_2_max s, saturation_max s, value_max s)) 1 0
   = (if in_colour_range s p then 255 else 0)"
  by (cases p) (auto simp: addWeighted_pixel_def saturate_cast_uchar_def)

lemma threshold_frame_nth:
  assumes "r < length HSV_frame" and "c < length (HSV_frame ! r)"
  shows "threshold_frame s HSV_frame ! r ! c
         = (if in_colour_range s (HSV_frame ! r ! c) then 255 else 0)"
  using assms
  by (simp add: threshold_frame_def Let_def inRange_def addWeighted_def threshold_pixel)

text \<open>
  Claim C8.  In the static-threshold pipeline the combined mask has the shape of the HSV
  frame, and its pixel at row \<open>r\<close>, column \<open>c\<close> is foreground (nonzero, in fact 255) if and
  only if the hue of the frame's pixel lies in \<open>[hue_1_min, hue_1_max]\<close> or in
  \<open>[hue_2_min, hue_2_max]\<close>, its saturation in \<open>[saturation_min, saturation_max]\<close> and its
  value in \<open>[value_min, value_max]\<close>; otherwise it is 0.  The saturating addition of the
  two interval masks acts as their union.
\<close>

theorem threshold_frame_foreground:
  assumes "r < length HSV_frame" and "c < length (HSV_frame ! r)"
    and "HSV_frame ! r ! c = (h, sa, v)"
  shows "(threshold_frame s HSV_frame ! r ! c \<noteq> 0) =
           (((hue_1_min s \<le> uint h \<and> uint h \<le> hue_1_max s)
             \<or> (hue_2_min s \<le> uint h \<and> uint h \<le> hue_2_max s))
            \<and> (saturation_min s \<le> uint sa \<and> uint sa \<le> saturation_max s)
            \<and> (value_min s \<le> uint v \<and> uint v \<le> value_max s))
         \<and> (threshold_frame s HSV_frame ! r ! c = 0 \<or> threshold_frame s HSV_frame ! r ! c = 255)
         \<and> length (threshold_frame s HSV_frame) = length HSV_frame
         \<and> length (threshold_frame s HSV_frame ! r) = length (HSV_frame ! r)"
proof -
  have "length (threshold_frame s HSV_frame) = length HSV_frame"
    by (simp add: threshold_frame_def Let_def inRange_def addWeighted_def)
  moreover have "length (threshold_frame s HSV_frame ! r) = length (HSV_frame ! r)"
    using assms(1) by (simp add: threshold_frame_def Let_def inRange_def addWeighted_def)
  ultimately show ?thesis
    using assms by (simp add: threshold_frame_nth)
qed

theorem threshold_frame_foreground_witness:
  "threshold_frame initial_settings
     [[(5, 200, 150), (90, 200, 150)], [(170, 130, 100), (5, 100, 150)]] ! 1 ! 0 \<noteq> 0
   \<and> threshold_frame initial_settings
     [[(5, 200, 150), (90, 200, 150)], [(170, 130, 100), (5, 100, 150)]] ! 1 ! 1 = 0"
  using threshold_frame_foreground
      [of 1 "[[(5, 200, 150), (90, 200, 150)], [(170, 130, 100), (5, 100, 150)]]" 0 170 130 100
          initial_settings]
    threshold_frame_foreground
      [of 1 "[[(5, 200, 150), (90, 200, 150)], [(170, 130, 100), (5, 100, 150)]]" 1 5 100 150
          initial_settings]
  by (simp add: initial_settings_def)

subsection \<open>Rounding\<close>

lemma round_half_even_int [simp]: "round_half_even (of_int m) = m"
  by (simp add: round_half_even_def)

lemma round_half_even_le: "v \<le> of_int M \<Longrightarrow> round_half_even v \<le> M"
proof -
  assume v: "v \<le> of_int M"
  then have f: "\<lfloor>v\<rfloor> \<le> M" using floor_mono [of v "of_int M"] by simp
  show ?thesis
  proof (cases "v = of_int \<lfloor>v\<rfloor>")
    case True
    then have "round_half_even v = \<lfloor>v\<rfloor>" by (simp add: round_half_even_def)
    then show ?thesis using f by simp
  next
    case False
    then have "of_int \<lfloor>v\<rfloor> < v" using of_int_floor_le [of v] by linarith
    then have "\<lfloor>v\<rfloor> < M" using v by (metis less_le_trans of_int_less_iff)
    moreover have "round_half_even v \<le> \<lfloor>v\<rfloor> + 1" by (simp add: round_half_even_def Let_def)
    ultimately show ?thesis by linarith
  qed
qed

lemma round_half_even_ge: "of_int M \<le> v \<Longrightarrow> M \<le> round_half_even v"
proof -
  assume "of_int M \<le> v"
  then have "M \<le> \<lfloor>v\<rfloor>" by (simp add: le_floor_iff)
  moreover have "\<lfloor>v\<rfloor> \<le> round_half_even v" by (simp add: round_half_even_def Let_def)
  ultimately show ?thesis by linarith
qed

lemma round_half_even_abs_le: "\<bar>v\<bar> \<le> of_int M \<Longrightarrow> \<bar>round_half_even v\<bar> \<le> M"
  using round_half_even_le [of v M] round_half_even_ge [of "- M" v] by (simp add: abs_le_iff)

lemma binade_range: "emin \<le> binade p emin n a \<and> binade p emin n a \<le> emin + int n"
  by (induction n) auto

lemma binade_normal:
  "binade p emin n a = emin \<or> 2 ^ (p - 1) * 2 powi (binade p emin n a) \<le> a"
  by (induction n) auto

lemma pow2_less_D: "(2::real) powi m < 2 powi n \<Longrightarrow> m < n"
proof (rule ccontr)
  assume "(2::real) powi m < 2 powi n" and "\<not> m < n"
  then show False using power_int_increasing [of n m "2::real"] by simp
qed

text \<open>The exponent found never exceeds that of a bound on the magnitude.\<close>

lemma binade_le:
  assumes "0 < p" and "a < 2 ^ p * 2 powi k" and "emin \<le> k"
  shows "binade p emin n a \<le> k"
proof -
  consider "binade p emin n a = emin" | "2 ^ (p - 1) * 2 powi (binade p emin n a) \<le> a"
    using binade_normal by blast
  then show ?thesis
  proof cases
    case 1
    then show ?thesis using assms(3) by simp
  next
    case 2
    let ?e = "binade p emin n a"
    have "(2::real) ^ p = 2 ^ (p - 1) * 2" using assms(1) by (cases p) simp_all
    then have "a < 2 ^ (p - 1) * (2 * 2 powi k)" using assms(2) by (simp only: mult.assoc)
    with 2 have "(2::real) ^ (p - 1) * 2 powi ?e < 2 ^ (p - 1) * (2 * 2 powi k)"
      by (rule le_less_trans)
    then have "(2::real) powi ?e < 2 * 2 powi k"
      by (simp only: mult_less_cancel_left_pos zero_less_power zero_less_numeral)
    also have "\<dots> = 2 powi (k + 1)" by (simp add: power_int_add)
    finally have "?e < k + 1" by (rule pow2_less_D)
    then show ?thesis by simp
  qed
qed

lemma powi_ratio_int:
  assumes "e \<le> (k::int)"
  shows "(2::real) powi k / 2 powi e = of_int (2 ^ nat (k - e))"
proof -
  have "(2::real) powi k / 2 powi e = 2 powi (k - e)" by (simp add: power_int_diff)
  also have "\<dots> = 2 ^ nat (k - e)" using assms by (simp add: power_int_def)
  finally show ?thesis by simp
qed

text \<open>
  Rounding does not cross a number of the format: a magnitude bounded by \<open>N * 2 ^ j\<close>,
  below the overflow threshold, rounds to a finite number with the same bound.
\<close>

lemma fp_round_bounded:
  assumes "\<bar>x\<bar> \<le> of_int N * 2 powi j"
    and "real_of_int N * 2 powi j < 2 ^ p * 2 powi emax"
    and "binade p emin (nat (emax - emin)) \<bar>x\<bar> \<le> j"
  shows "\<exists>r. fp_round p emin emax x = Fin r \<and> \<bar>r\<bar> \<le> of_int N * 2 powi j"
proof -
  let ?e = "binade p emin (nat (emax - emin)) \<bar>x\<bar>"
  let ?r = "real_of_int (round_half_even (x / 2 powi ?e)) * 2 powi ?e"
  have pos: "(0::real) < 2 powi ?e" by simp
  have "\<bar>x / 2 powi ?e\<bar> = \<bar>x\<bar> / 2 powi ?e" by simp
  also have "\<dots> \<le> of_int N * 2 powi j / 2 powi ?e"
    using assms(1) pos by (simp add: divide_right_mono)
  also have "\<dots> = of_int N * (2 powi j / 2 powi ?e)" by simp
  also have "\<dots> = of_int (N * 2 ^ nat (j - ?e))"
    by (simp only: powi_ratio_int [OF assms(3)] of_int_mult)
  finally have "\<bar>round_half_even (x / 2 powi ?e)\<bar> \<le> N * 2 ^ nat (j - ?e)"
    by (rule round_half_even_abs_le)
  then have "real_of_int \<bar>round_half_even (x / 2 powi ?e)\<bar> \<le> real_of_int (N * 2 ^ nat (j - ?e))"
    by (simp only: of_int_le_iff)
  then have "\<bar>?r\<bar> \<le> real_of_int (N * 2 ^ nat (j - ?e)) * 2 powi ?e"
    by (simp add: abs_mult mult_right_mono)
  also have "\<dots> = of_int N * ((2 powi j / 2 powi ?e) * 2 powi ?e)"
    by (simp only: powi_ratio_int [OF assms(3)] of_int_mult mult.assoc)
  also have "\<dots> = of_int N * 2 powi j" by simp
  finally have r: "\<bar>?r\<bar> \<le> of_int N * 2 powi j" .
  have "\<not> 2 ^ p * 2 powi emax \<le> \<bar>x\<bar>" using assms(1,2) by linarith
  moreover have "\<not> 2 ^ p * 2 powi emax \<le> \<bar>?r\<bar>" using r assms(2) by linarith
  ultimately have "fp_round p emin emax x = Fin ?r"
    by (simp add: fp_round_def Let_def)
  then show ?thesis using r by blast
qed

lemma fp_round_le_pow2:
  assumes "0 < p" and "\<bar>x\<bar> \<le> 2 powi j" and "emin \<le> j" and "j < int p + emax"
  shows "\<exists>r. fp_round p emin emax x = Fin r \<and> \<bar>r\<bar> \<le> 2 powi j"
proof -
  have "(2::real) powi j < 2 powi (int p + emax)"
    using assms(4) by (simp add: power_int_strict_increasing)
  then have lt: "real_of_int 1 * 2 powi j < 2 ^ p * 2 powi emax"
    by (simp add: power_int_add)
  have "(2::real) powi j < 2 ^ p * 2 powi j"
    using assms(1) by simp
  then have "\<bar>x\<bar> < 2 ^ p * 2 powi j" using assms(2) by linarith
  with assms(1) have "binade p emin (nat (emax - emin)) \<bar>x\<bar> \<le> j"
    using assms(3) by (rule binade_le)
  from fp_round_bounded [of x 1 j p emax emin, OF _ lt this] assms(2)
  show ?thesis by simp
qed

lemma fp_round_le_max:
  assumes "\<bar>x\<bar> \<le> (2 ^ p - 1) * 2 powi emax" and "emin \<le> emax"
  shows "\<exists>r. fp_round p emin emax x = Fin r \<and> \<bar>r\<bar> \<le> (2 ^ p - 1) * 2 powi emax"
proof -
  have "binade p emin (nat (emax - emin)) \<bar>x\<bar> \<le> emin + int (nat (emax - emin))"
    using binade_range by blast
  then have e: "binade p emin (nat (emax - emin)) \<bar>x\<bar> \<le> emax" using assms(2) by simp
  have lt: "real_of_int (2 ^ p - 1) * 2 powi emax < 2 ^ p * 2 powi emax" by simp
  from fp_round_bounded [of x "2 ^ p - 1" emax p emax emin, OF _ lt e] assms(1)
  show ?thesis by simp
qed

lemma fp_round_nonneg:
  assumes "0 \<le> x" and "fp_round p emin emax x = Fin r"
  shows "0 \<le> r"
proof -
  let ?e = "binade p emin (nat (emax - emin)) \<bar>x\<bar>"
  have "real_of_int 0 \<le> x / 2 powi ?e" using assms(1) by simp
  then have "0 \<le> round_half_even (x / 2 powi ?e)" by (rule round_half_even_ge)
  then have "0 \<le> real_of_int (round_half_even (x / 2 powi ?e)) * 2 powi ?e" by simp
  then show ?thesis using assms(2) by (auto simp: fp_round_def Let_def split: if_splits)
qed

text \<open>A number of the format is rounded to itself.\<close>

lemma fp_round_exact:
  assumes "0 < p" and "x = of_int m * 2 powi k" and "\<bar>m\<bar> < 2 ^ p" and "emin \<le> k" and "k \<le> emax"
  shows "fp_round p emin emax x = Fin x"
proof -
  let ?e = "binade p emin (nat (emax - emin)) \<bar>x\<bar>"
  have m: "real_of_int \<bar>m\<bar> < 2 ^ p"
    using assms(3) by (metis of_int_less_iff of_int_numeral of_int_power)
  have ax: "\<bar>x\<bar> = real_of_int \<bar>m\<bar> * 2 powi k" by (simp add: assms(2) abs_mult)
  then have lt: "\<bar>x\<bar> < 2 ^ p * 2 powi k" using m by simp
  also have "\<dots> \<le> 2 ^ p * 2 powi emax" using assms(5) by (simp add: power_int_increasing)
  finally have no: "\<not> 2 ^ p * 2 powi emax \<le> \<bar>x\<bar>" by simp
  have e: "?e \<le> k" using assms(1) lt assms(4) by (rule binade_le)
  have "x / 2 powi ?e = of_int m * (2 powi k / 2 powi ?e)" by (simp add: assms(2))
  also have "\<dots> = of_int (m * 2 ^ nat (k - ?e))"
    by (simp only: powi_ratio_int [OF e] of_int_mult)
  finally have "real_of_int (round_half_even (x / 2 powi ?e)) * 2 powi ?e
      = of_int (m * 2 ^ nat (k - ?e)) * 2 powi ?e"
    by (simp only: round_half_even_int)
  also have "\<dots> = of_int m * ((2 powi k / 2 powi ?e) * 2 powi ?e)"
    by (simp only: powi_ratio_int [OF e] of_int_mult mult.assoc)
  also have "\<dots> = x" by (simp add: assms(2))
  finally have r: "real_of_int (round_half_even (x / 2 powi ?e)) * 2 powi ?e = x" .
  show ?thesis using no by (simp add: fp_round_def Let_def r)
qed

text \<open>
  Multiples of \<open>1/1024\<close> of small magnitude are numbers of both formats; so is the
  largest finite \<^verbatim>\<open>float\<close>.
\<close>

lemma binary32_fixed_point:
  assumes "of_int \<lfloor>x * 1024\<rfloor> = x * 1024" and "\<bar>x\<bar> * 1024 < 16777216"
  shows "binary32 x = Fin x"
  unfolding binary32_def
proof (rule fp_round_exact [where m = "\<lfloor>x * 1024\<rfloor>" and k = "- 10"])
  have "x = (x * 1024) * 2 powi - 10" by (simp add: power_int_minus)
  then show "x = real_of_int \<lfloor>x * 1024\<rfloor> * 2 powi - 10" by (simp only: assms(1))
  have "\<bar>real_of_int \<lfloor>x * 1024\<rfloor>\<bar> = \<bar>x\<bar> * 1024" by (simp add: assms(1) abs_mult)
  then have "\<bar>real_of_int \<lfloor>x * 1024\<rfloor>\<bar> < 16777216" using assms(2) by (simp only:)
  then have "real_of_int \<bar>\<lfloor>x * 1024\<rfloor>\<bar> < real_of_int 16777216" by simp
  then have "\<bar>\<lfloor>x * 1024\<rfloor>\<bar> < 16777216" by (simp only: of_int_less_iff)
  then show "\<bar>\<lfloor>x * 1024\<rfloor>\<bar> < 2 ^ 24" by simp
qed simp_all

lemma binary64_fixed_point:
  assumes "of_int \<lfloor>x * 1024\<rfloor> = x * 1024" and "\<bar>x\<bar> * 1024 < 16777216"
  shows "binary64 x = Fin x"
  unfolding binary64_def
proof (rule fp_round_exact [where m = "\<lfloor>x * 1024\<rfloor>" and k = "- 10"])
  have "x = (x * 1024) * 2 powi - 10" by (simp add: power_int_minus)
  then show "x = real_of_int \<lfloor>x * 1024\<rfloor> * 2 powi - 10" by (simp only: assms(1))
  have "\<bar>real_of_int \<lfloor>x * 1024\<rfloor>\<bar> = \<bar>x\<bar> * 1024" by (simp add: assms(1) abs_mult)
  then have "\<bar>real_of_int \<lfloor>x * 1024\<rfloor>\<bar> < 16777216" using assms(2) by (simp only:)
  then have "real_of_int \<bar>\<lfloor>x * 1024\<rfloor>\<bar> < real_of_int 16777216" by simp
  then have "\<bar>\<lfloor>x * 1024\<rfloor>\<bar> < 16777216" by (simp only: of_int_less_iff)
  then show "\<bar>\<lfloor>x * 1024\<rfloor>\<bar> < 2 ^ 53" by simp
qed simp_all

lemma binary64_int:
  assumes "\<bar>m\<bar> < 2 ^ 53"
  shows "binary64 (real_of_int m) = Fin (real_of_int m)"
  unfolding binary64_def
  by (rule fp_round_exact [where m = m and k = 0]) (use assms in simp_all)

lemma binary32_le_pow2:
  assumes "\<bar>x\<bar> \<le> 2 ^ n" and "n < 128"
  shows "\<exists>r. binary32 x = Fin r \<and> \<bar>r\<bar> \<le> 2 ^ n"
  using fp_round_le_pow2 [of 24 x "int n" "- 149" 104] assms by (simp add: binary32_def)

lemma binary64_le_pow2:
  assumes "\<bar>x\<bar> \<le> 2 ^ n" and "n < 1024"
  shows "\<exists>r. binary64 x = Fin r \<and> \<bar>r\<bar> \<le> 2 ^ n"
  using fp_round_le_pow2 [of 53 x "int n" "- 1074" 971] assms by (simp add: binary64_def)

lemma binary64_nonneg: "0 \<le> x \<Longrightarrow> binary64 x = Fin r \<Longrightarrow> 0 \<le> r"
  unfolding binary64_def by (rule fp_round_nonneg)

lemma binary32_le_FLT_MAX:
  assumes "\<bar>x\<bar> \<le> FLT_MAX"
  shows "\<exists>r. binary32 x = Fin r \<and> \<bar>r\<bar> \<le> FLT_MAX"
proof -
  have "FLT_MAX = (2 ^ 24 - 1) * 2 powi 104" by (simp add: FLT_MAX_def)
  then show ?thesis
    using fp_round_le_max [of x 24 104 "- 149"] assms by (simp add: binary32_def)
qed

subsection \<open>The shortest side of the bounding rectangle\<close>

lemma all_less_2: "(\<forall>j<2. P (j::nat)) \<longleftrightarrow> P 0 \<and> P 1"
proof -
  have "\<And>j::nat. j < 2 \<longleftrightarrow> j = 0 \<or> j = 1" by arith
  then show ?thesis by auto
qed

lemma all_less_3: "(\<forall>j<3. P (j::nat)) \<longleftrightarrow> P 0 \<and> P 1 \<and> P 2"
proof -
  have "\<And>j::nat. j < 3 \<longleftrightarrow> j = 0 \<or> j = 1 \<or> j = 2" by arith
  then show ?thesis by auto
qed

lemma all_less_4: "(\<forall>j<4. P (j::nat)) \<longleftrightarrow> P 0 \<and> P 1 \<and> P 2 \<and> P 3"
proof -
  have "\<And>j::nat. j < 4 \<longleftrightarrow> j = 0 \<or> j = 1 \<or> j = 2 \<or> j = 3" by arith
  then show ?thesis by auto
qed

lemma corner_within:
  "corners_within B rp \<Longrightarrow> \<bar>fst (corner rp j)\<bar> \<le> B \<and> \<bar>snd (corner rp j)\<bar> \<le> B"
  by (cases rp) simp

lemma corners_within_mono: "B \<le> B' \<Longrightarrow> corners_within B rp \<Longrightarrow> corners_within B' rp"
  by (cases rp) auto

lemma pixel_corners_within: "pixel_corners rp = corners_within (2 ^ 29) rp"
  by (cases rp) (simp add: pixel_range_def)

lemma finite_corners_within: "finite_corners rp = corners_within FLT_MAX rp"
  by (cases rp) (simp add: finite_float_def)

text \<open>
  The difference of two coordinates of magnitude at most half of \<^verbatim>\<open>FLT_MAX\<close> does not
  overflow, and the norm of a finite \<^verbatim>\<open>Point2f\<close> is a finite \<^verbatim>\<open>double\<close> far below
  \<^verbatim>\<open>DBL_MAX\<close>.
\<close>

lemma float_sub_finite:
  assumes "\<bar>a\<bar> \<le> FLT_MAX / 2" and "\<bar>b\<bar> \<le> FLT_MAX / 2"
  shows "\<exists>r. float_sub a b = Fin r \<and> \<bar>r\<bar> \<le> 2 ^ 128"
proof -
  have "\<bar>a - b\<bar> \<le> FLT_MAX" using assms by linarith
  then obtain r where r: "binary32 (a - b) = Fin r" "\<bar>r\<bar> \<le> FLT_MAX"
    using binary32_le_FLT_MAX by blast
  have "FLT_MAX \<le> 2 ^ 128" by (simp add: FLT_MAX_def)
  with r(2) have "\<bar>r\<bar> \<le> 2 ^ 128" by (rule order_trans)
  with r(1) show ?thesis by (simp add: float_sub_def)
qed

lemma double_square_finite:
  assumes "\<bar>u\<bar> \<le> 2 ^ n" and "2 * n < 1024"
  shows "\<exists>s. double_square (Fin u) = Fin s \<and> 0 \<le> s \<and> s \<le> 2 ^ (2 * n)"
proof -
  have "\<bar>u * u\<bar> = \<bar>u\<bar> * \<bar>u\<bar>" by (simp add: abs_mult)
  also have "\<dots> \<le> 2 ^ n * 2 ^ n" using assms(1) by (intro mult_mono) simp_all
  also have "\<dots> = (2::real) ^ (2 * n)" by (simp add: mult_2 power_add)
  finally have "\<bar>u * u\<bar> \<le> 2 ^ (2 * n)" .
  then obtain s where s: "binary64 (u * u) = Fin s" "\<bar>s\<bar> \<le> 2 ^ (2 * n)"
    using binary64_le_pow2 assms(2) by blast
  have "0 \<le> s" by (rule binary64_nonneg [OF _ s(1)]) simp
  with s show ?thesis by auto
qed

lemma double_sqrt_sum_finite:
  assumes "0 \<le> s" and "s \<le> 2 ^ (2 * n)" and "0 \<le> t" and "t \<le> 2 ^ (2 * n)"
    and "2 * n + 2 < 1024"
  shows "\<exists>d. double_sqrt (double_add (Fin s) (Fin t)) = Fin d \<and> 0 \<le> d \<and> d \<le> 2 ^ (n + 1)"
proof -
  have "\<bar>s + t\<bar> \<le> 2 ^ (2 * n + 1)" using assms(1-4) by simp
  moreover have "2 * n + 1 < 1024" using assms(5) by simp
  ultimately obtain w where w: "binary64 (s + t) = Fin w" "\<bar>w\<bar> \<le> 2 ^ (2 * n + 1)"
    using binary64_le_pow2 by blast
  have w0: "0 \<le> w" by (rule binary64_nonneg [OF _ w(1)]) (use assms(1,3) in simp)
  have "(2::real) ^ (2 * n + 1) \<le> 2 ^ (2 * (n + 1))" by (rule power_increasing) simp_all
  also have "\<dots> = (2 ^ (n + 1))\<^sup>2" by (simp only: power_mult [symmetric] mult.commute)
  finally have "w \<le> (2 ^ (n + 1))\<^sup>2" using w(2) by linarith
  then have "sqrt w \<le> 2 ^ (n + 1)" by (rule real_le_lsqrt [rotated -1]) (use w0 in simp_all)
  then have "\<bar>sqrt w\<bar> \<le> 2 ^ (n + 1)" using w0 by simp
  moreover have "n + 1 < 1024" using assms(5) by simp
  ultimately obtain d where d: "binary64 (sqrt w) = Fin d" "\<bar>d\<bar> \<le> 2 ^ (n + 1)"
    using binary64_le_pow2 by blast
  have "0 \<le> d" by (rule binary64_nonneg [OF _ d(1)]) (use w0 in simp)
  with d w w0 show ?thesis by auto
qed

lemma norm2f_finite:
  assumes "\<bar>u\<bar> \<le> 2 ^ 128" and "\<bar>v\<bar> \<le> 2 ^ 128"
  shows "\<exists>d. norm2f (Fin u, Fin v) = Fin d \<and> 0 \<le> d \<and> d \<le> 2 ^ 129"
proof -
  obtain s where s: "double_square (Fin u) = Fin s" "0 \<le> s" "s \<le> 2 ^ (2 * 128)"
    using double_square_finite [OF assms(1)] by auto
  obtain t where t: "double_square (Fin v) = Fin t" "0 \<le> t" "t \<le> 2 ^ (2 * 128)"
    using double_square_finite [OF assms(2)] by auto
  obtain d where "double_sqrt (double_add (Fin s) (Fin t)) = Fin d" "0 \<le> d" "d \<le> 2 ^ (128 + 1)"
    using double_sqrt_sum_finite [OF s(2,3) t(2,3)] by auto
  then show ?thesis
    unfolding norm2f_def fst_conv snd_conv s(1) t(1) by simp
qed

lemma line_length_finite:
  assumes "half_range_corners rp"
  shows "\<exists>d. line_length rp j = Fin d \<and> d < DBL_MAX"
proof -
  let ?a = "corner rp j" and ?b = "corner rp ((j + 1) mod 4)"
  have w: "corners_within (FLT_MAX / 2) rp" using assms by (simp only: half_range_corners_def)
  obtain u where u: "float_sub (fst ?a) (fst ?b) = Fin u" "\<bar>u\<bar> \<le> 2 ^ 128"
    using float_sub_finite corner_within [OF w] by meson
  obtain v where v: "float_sub (snd ?a) (snd ?b) = Fin v" "\<bar>v\<bar> \<le> 2 ^ 128"
    using float_sub_finite corner_within [OF w] by meson
  obtain d where d: "norm2f (Fin u, Fin v) = Fin d" "d \<le> 2 ^ 129"
    using norm2f_finite [OF u(2) v(2)] by auto
  have "(2::real) ^ 129 < DBL_MAX" by (simp add: DBL_MAX_def)
  with d(2) have "d < DBL_MAX" by (rule le_less_trans)
  with d(1) show ?thesis by (simp only: line_length_def sub2f_def u(1) v(1)) simp
qed

text \<open>
  When the four lengths are finite and below the sentinel, the loop ends with the index
  of the first side of minimal length: no side is shorter, and every earlier side is
  strictly longer.
\<close>

lemma shortest_side_first_minimum:
  assumes "\<And>j. \<exists>d. line_length rp j = Fin d \<and> d < DBL_MAX"
  shows "\<exists>k<4. shortest_side rp = (line_length rp k, Some k)
           \<and> (\<forall>j<4. \<not> fp_less (line_length rp j) (line_length rp k))
           \<and> (\<forall>j<k. fp_less (line_length rp k) (line_length rp j))"
proof -
  from assms obtain l where l: "\<And>j. line_length rp j = Fin (l j)" and lb: "\<And>j. l j < DBL_MAX"
    by metis
  have l0: "l 0 < DBL_MAX" by (rule lb)
  consider (a) "l 0 \<le> l 1" "l 0 \<le> l 2" "l 0 \<le> l 3"
    | (b) "l 1 < l 0" "l 1 \<le> l 2" "l 1 \<le> l 3"
    | (c) "l 2 < l 0" "l 2 < l 1" "l 2 \<le> l 3"
    | (d) "l 3 < l 0" "l 3 < l 1" "l 3 < l 2"
    by linarith
  then show ?thesis
  proof cases
    case a
    then have "shortest_side rp = (Fin (l 0), Some 0)"
      using l0 by (simp add: shortest_side_def side_step_def l)
    then show ?thesis using a by (intro exI[of _ 0]) (simp add: all_less_4 l)
  next
    case b
    then have "shortest_side rp = (Fin (l 1), Some 1)"
      using l0 by (simp add: shortest_side_def side_step_def l)
    then show ?thesis using b by (intro exI[of _ 1]) (simp add: all_less_4 l)
  next
    case c
    then have "shortest_side rp = (Fin (l 2), Some 2)"
      using l0 by (auto simp add: shortest_side_def side_step_def l)
    then show ?thesis using c
      by (intro exI[of _ 2]) (simp add: all_less_4 all_less_2 l)
  next
    case d
    then have "shortest_side rp = (Fin (l 3), Some 3)"
      using l0 by (auto simp add: shortest_side_def side_step_def l)
    then show ?thesis using d
      by (intro exI[of _ 3]) (simp add: all_less_4 all_less_3 l)
  qed
qed

text \<open>
  The midpoints.  With coordinates of magnitude at most \<open>2 ^ n\<close>, the sum of two
  coordinates, its half and the conversion back to \<^verbatim>\<open>float\<close> stay finite, and within
  \<open>2 ^ n\<close>; for \<open>n\<close> up to 30 the rounded midpoint is within the range of \<^verbatim>\<open>int\<close>.
\<close>

lemma midpoint_coordinate:
  assumes "\<bar>a\<bar> \<le> 2 ^ n" and "\<bar>b\<bar> \<le> 2 ^ n" and "n < 127"
  shows "\<exists>u. float_of_double (double_times (float_add a b) (1 / 2)) = Fin u \<and> \<bar>u\<bar> \<le> 2 ^ n"
proof -
  have "\<bar>a + b\<bar> \<le> 2 ^ (n + 1)" using assms(1,2) by simp
  moreover have "n + 1 < 128" using assms(3) by simp
  ultimately obtain s where s: "binary32 (a + b) = Fin s" "\<bar>s\<bar> \<le> 2 ^ (n + 1)"
    using binary32_le_pow2 by blast
  have "\<bar>s * (1 / 2)\<bar> \<le> 2 ^ n" using s(2) by simp
  moreover have "n < 1024" using assms(3) by simp
  ultimately obtain t where t: "binary64 (s * (1 / 2)) = Fin t" "\<bar>t\<bar> \<le> 2 ^ n"
    using binary64_le_pow2 by blast
  have "n < 128" using assms(3) by simp
  with t(2) obtain u where u: "binary32 t = Fin u" "\<bar>u\<bar> \<le> 2 ^ n"
    using binary32_le_pow2 by blast
  have "float_of_double (double_times (float_add a b) (1 / 2)) = Fin u"
    by (simp only: float_add_def s(1) double_times.simps t(1) float_of_double.simps u(1))
  with u(2) show ?thesis by blast
qed

lemma cvRound_range:
  assumes "\<bar>u\<bar> \<le> 2 ^ n" and "n < 31"
  shows "\<exists>i. cvRound (Fin u) = Some i \<and> \<bar>i\<bar> \<le> 2 ^ n"
proof -
  have "\<bar>u\<bar> \<le> real_of_int (2 ^ n)" using assms(1) by simp
  then have r: "\<bar>round_half_even u\<bar> \<le> 2 ^ n" by (rule round_half_even_abs_le)
  have "(2::int) ^ n < 2 ^ 31" by (rule power_strict_increasing) (use assms(2) in simp_all)
  with r have "- (2 ^ 31) \<le> round_half_even u" and "round_half_even u < 2 ^ 31" by linarith+
  then have "cvRound (Fin u) = Some (round_half_even u)" by simp
  with r show ?thesis by blast
qed

lemma edge_midpoint_point:
  assumes "corners_within (2 ^ n) rp" and "n < 31"
  shows "\<exists>m. Point_of (edge_midpoint rp k) = Some m \<and> \<bar>fst m\<bar> \<le> 2 ^ n \<and> \<bar>snd m\<bar> \<le> 2 ^ n"
proof -
  let ?a = "corner rp (k mod 4)" and ?b = "corner rp ((k + 1) mod 4)"
  have n: "n < 127" using assms(2) by simp
  obtain u where u: "float_of_double (double_times (float_add (fst ?a) (fst ?b)) (1 / 2)) = Fin u"
      "\<bar>u\<bar> \<le> 2 ^ n"
    using midpoint_coordinate [OF _ _ n] corner_within [OF assms(1)] by meson
  obtain v where v: "float_of_double (double_times (float_add (snd ?a) (snd ?b)) (1 / 2)) = Fin v"
      "\<bar>v\<bar> \<le> 2 ^ n"
    using midpoint_coordinate [OF _ _ n] corner_within [OF assms(1)] by meson
  obtain x where x: "cvRound (Fin u) = Some x" "\<bar>x\<bar> \<le> 2 ^ n"
    using cvRound_range [OF u(2) assms(2)] by blast
  obtain y where y: "cvRound (Fin v) = Some y" "\<bar>y\<bar> \<le> 2 ^ n"
    using cvRound_range [OF v(2) assms(2)] by blast
  have "Point_of (edge_midpoint rp k) = Some (x, y)"
    by (simp only: Point_of_def edge_midpoint_def scale2f_def add2f_def fst_conv snd_conv
          u(1) v(1) x(1) y(1) option.case)
  with x(2) y(2) show ?thesis by simp
qed

lemma int_minus_range:
  assumes "\<bar>a\<bar> \<le> 2 ^ n" and "\<bar>b\<bar> \<le> 2 ^ n" and "n < 30"
  shows "int_minus a b = Some (a - b) \<and> \<bar>a - b\<bar> \<le> 2 ^ (n + 1)"
proof -
  have d: "\<bar>a - b\<bar> \<le> 2 ^ (n + 1)" using assms(1,2) by simp
  have "(2::int) ^ (n + 1) < 2 ^ 31" by (rule power_strict_increasing) (use assms(3) in simp_all)
  with d have "- (2 ^ 31) \<le> a - b \<and> a - b < 2 ^ 31" by linarith
  with d show ?thesis by (simp only: int_minus_def if_True simp_thms)
qed

text \<open>
  The distance of two \<^verbatim>\<open>int\<close> differences is a finite \<^verbatim>\<open>double\<close>.  Up to \<open>2 ^ 25\<close> the
  squares and their sum are computed exactly, so that the result is the \<^verbatim>\<open>double\<close>
  nearest to the square root of the integer \<open>dx\<^sup>2 + dy\<^sup>2\<close>.
\<close>

lemma double_distance_finite:
  assumes "\<bar>dx\<bar> \<le> 2 ^ 31" and "\<bar>dy\<bar> \<le> 2 ^ 31"
  shows "\<exists>d. double_distance dx dy = Fin d"
proof -
  have "\<bar>real_of_int dx\<bar> \<le> 2 ^ 31"
    using assms(1) by (metis of_int_abs of_int_le_iff of_int_numeral of_int_power)
  then obtain s where s: "double_square (Fin (real_of_int dx)) = Fin s" "0 \<le> s" "s \<le> 2 ^ (2 * 31)"
    using double_square_finite [of "real_of_int dx" 31] by auto
  have "\<bar>real_of_int dy\<bar> \<le> 2 ^ 31"
    using assms(2) by (metis of_int_abs of_int_le_iff of_int_numeral of_int_power)
  then obtain t where t: "double_square (Fin (real_of_int dy)) = Fin t" "0 \<le> t" "t \<le> 2 ^ (2 * 31)"
    using double_square_finite [of "real_of_int dy" 31] by auto
  obtain d where "double_sqrt (double_add (Fin s) (Fin t)) = Fin d"
    using double_sqrt_sum_finite [OF s(2,3) t(2,3)] by auto
  then show ?thesis
    using s(1) t(1) by (simp add: double_distance_def power2_eq_square)
qed

lemma square_below_2_50:
  assumes "\<bar>a\<bar> \<le> (2::int) ^ 25"
  shows "0 \<le> a\<^sup>2 \<and> a\<^sup>2 \<le> 2 ^ 50"
proof -
  have "a\<^sup>2 \<le> (2 ^ 25)\<^sup>2" using assms by (simp only: abs_le_square_iff [symmetric])
  then show ?thesis by simp
qed

lemma double_distance_exact:
  assumes "\<bar>dx\<bar> \<le> 2 ^ 25" and "\<bar>dy\<bar> \<le> 2 ^ 25"
  shows "double_distance dx dy = binary64 (sqrt (real_of_int (dx\<^sup>2 + dy\<^sup>2)))"
proof -
  note x = square_below_2_50 [OF assms(1)] and y = square_below_2_50 [OF assms(2)]
  have "binary64 (real_of_int (dx\<^sup>2)) = Fin (real_of_int (dx\<^sup>2))"
    by (rule binary64_int) (use x in simp)
  then have sx: "binary64 ((real_of_int dx)\<^sup>2) = Fin (real_of_int (dx\<^sup>2))" by simp
  have "binary64 (real_of_int (dy\<^sup>2)) = Fin (real_of_int (dy\<^sup>2))"
    by (rule binary64_int) (use y in simp)
  then have sy: "binary64 ((real_of_int dy)\<^sup>2) = Fin (real_of_int (dy\<^sup>2))" by simp
  have "binary64 (real_of_int (dx\<^sup>2 + dy\<^sup>2)) = Fin (real_of_int (dx\<^sup>2 + dy\<^sup>2))"
    by (rule binary64_int) (use x y in simp)
  then have sum: "binary64 (real_of_int (dx\<^sup>2) + real_of_int (dy\<^sup>2)) = Fin (real_of_int (dx\<^sup>2 + dy\<^sup>2))"
    by (simp only: of_int_add)
  have "0 \<le> dx\<^sup>2 + dy\<^sup>2" using x y by linarith
  then have "0 \<le> real_of_int (dx\<^sup>2 + dy\<^sup>2)" by (simp only: of_int_0_le_iff)
  then have "\<not> real_of_int (dx\<^sup>2 + dy\<^sup>2) < 0" by linarith
  then show ?thesis
    by (simp only: double_distance_def sx sy double_add.simps sum double_sqrt.simps if_False)
qed

text \<open>
  With the index \<open>k\<close> found, the two midpoints are those of side \<open>k\<close> and of side \<open>k + 2\<close>.
\<close>

lemma shortest_axis_midpoints_edges:
  assumes "snd (shortest_side rp) = Some k" and "k < 4"
    and "Point_of (edge_midpoint rp k) = Some m1"
    and "Point_of (edge_midpoint rp (k + 2)) = Some m2"
  shows "shortest_axis_midpoints rp = Some (m1, m2)"
proof -
  have m: "(k + 2 + 1) mod 4 = (k + 3) mod 4" "k mod 4 = k"
    using assms(2) by (simp_all add: add.commute)
  have "Point_of (scale2f (add2f (corner rp k) (corner rp ((k + 1) mod 4))) (1 / 2)) = Some m1"
    using assms(3) unfolding edge_midpoint_def by (simp only: m)
  moreover have "Point_of (scale2f (add2f (corner rp ((k + 2) mod 4)) (corner rp ((k + 3) mod 4)))
                    (1 / 2)) = Some m2"
    using assms(4) unfolding edge_midpoint_def by (simp only: m)
  ultimately show ?thesis
    unfolding shortest_axis_midpoints_def assms(1) by (simp only: option.case)
qed

text \<open>
  In the range of pixel positions both functions return: the index is assigned, the
  conversions to \<^verbatim>\<open>Point\<close> and the differences are within \<^verbatim>\<open>int\<close>, and the size is finite.
\<close>

lemma pose_defined:
  assumes "pixel_corners rp"
  shows "\<exists>m1 m2 dx dy d. shortest_axis_midpoints rp = Some (m1, m2)
           \<and> int_minus (fst m1) (fst m2) = Some dx \<and> int_minus (snd m1) (snd m2) = Some dy
           \<and> double_distance dx dy = Fin d"
proof -
  have w: "corners_within (2 ^ 29) rp" using assms by (simp only: pixel_corners_within)
  have "(2::real) ^ 29 \<le> FLT_MAX / 2" by (simp add: FLT_MAX_def)
  then have "half_range_corners rp"
    unfolding half_range_corners_def using w by (rule corners_within_mono)
  then obtain k where k: "k < 4" "shortest_side rp = (line_length rp k, Some k)"
    using shortest_side_first_minimum [OF line_length_finite] by blast
  obtain m1 where m1: "Point_of (edge_midpoint rp k) = Some m1"
      "\<bar>fst m1\<bar> \<le> 2 ^ 29" "\<bar>snd m1\<bar> \<le> 2 ^ 29"
    using edge_midpoint_point [OF w] by force
  obtain m2 where m2: "Point_of (edge_midpoint rp (k + 2)) = Some m2"
      "\<bar>fst m2\<bar> \<le> 2 ^ 29" "\<bar>snd m2\<bar> \<le> 2 ^ 29"
    using edge_midpoint_point [OF w] by force
  have mid: "shortest_axis_midpoints rp = Some (m1, m2)"
    by (rule shortest_axis_midpoints_edges [OF _ k(1) m1(1) m2(1)]) (simp add: k(2))
  have dx: "int_minus (fst m1) (fst m2) = Some (fst m1 - fst m2)" "\<bar>fst m1 - fst m2\<bar> \<le> 2 ^ (29 + 1)"
    using int_minus_range [OF m1(2) m2(2)] by simp_all
  have dy: "int_minus (snd m1) (snd m2) = Some (snd m1 - snd m2)" "\<bar>snd m1 - snd m2\<bar> \<le> 2 ^ (29 + 1)"
    using int_minus_range [OF m1(3) m2(3)] by simp_all
  have "\<exists>d. double_distance (fst m1 - fst m2) (snd m1 - snd m2) = Fin d"
    by (rule double_distance_finite) (use dx(2) dy(2) in simp_all)
  with mid dx(1) dy(1) show ?thesis by blast
qed

lemma draw_principal_axis_defined:
  assumes "pixel_corners (points rectangle)"
  shows "\<exists>axis. draw_principal_axis points rectangle = Some axis"
proof -
  obtain m1 m2 where "shortest_axis_midpoints (points rectangle) = Some (m1, m2)"
    using pose_defined [OF assms] by blast
  then show ?thesis by (simp add: draw_principal_axis_def)
qed

lemma get_size_defined:
  assumes "pixel_corners (points rectangle)"
  shows "\<exists>object_size. get_size points rectangle = Some object_size"
proof -
  obtain m1 m2 dx dy d where "shortest_axis_midpoints (points rectangle) = Some (m1, m2)"
    "int_minus (fst m1) (fst m2) = Some dx" "int_minus (snd m1) (snd m2) = Some dy"
    "double_distance dx dy = Fin d"
    using pose_defined [OF assms] by blast
  then have "get_size points rectangle = Some (d / 2)"
    by (simp only: get_size_def option.case prod.case fp.case)
  then show ?thesis by blast
qed

text \<open>
  Two rectangles for the examples.  \<open>tilted_rectangle\<close> has sides \<open>5/8\<close> and \<open>35/8\<close>; all
  the numbers that arise are multiples of \<open>1/1024\<close>, so that every floating-point
  operation on them is exact.  \<open>extreme_square\<close> has its corners at the largest finite
  \<^verbatim>\<open>float\<close>.
\<close>

lemma sqrt_values: "sqrt (25 / 64) = 5 / 8" "sqrt (1225 / 64) = 35 / 8" "sqrt 25 = 5"
  by (rule real_sqrt_unique; simp add: power2_eq_square)+

lemma tilted_rectangle_frame: "frame_corners tilted_rectangle"
  by (simp add: frame_corners_def tilted_rectangle_def)

lemma tilted_rectangle_lengths:
  "line_length tilted_rectangle 0 = Fin (5 / 8)"
  "line_length tilted_rectangle 1 = Fin (35 / 8)"
  "line_length tilted_rectangle 2 = Fin (5 / 8)"
  "line_length tilted_rectangle 3 = Fin (35 / 8)"
  by (simp_all add: line_length_def tilted_rectangle_def sub2f_def float_sub_def norm2f_def
        binary32_fixed_point binary64_fixed_point sqrt_values)

lemma tilted_rectangle_side: "shortest_side tilted_rectangle = (Fin (5 / 8), Some 0)"
  using tilted_rectangle_lengths by (simp add: shortest_side_def side_step_def DBL_MAX_def)

lemma tilted_rectangle_float_midpoints:
  "edge_midpoint tilted_rectangle 0 = (Fin (1 / 4), Fin (1 / 4))"
  "edge_midpoint tilted_rectangle 2 = (Fin (23 / 8), Fin (15 / 4))"
  by (simp_all add: edge_midpoint_def tilted_rectangle_def scale2f_def add2f_def float_add_def
        binary32_fixed_point binary64_fixed_point)

lemma tilted_rectangle_points:
  "Point_of (edge_midpoint tilted_rectangle 0) = Some (0, 0)"
  "Point_of (edge_midpoint tilted_rectangle 2) = Some (3, 4)"
  by (simp_all add: tilted_rectangle_float_midpoints Point_of_def round_half_even_def)

lemma tilted_rectangle_midpoints:
  "shortest_axis_midpoints tilted_rectangle = Some ((0, 0), (3, 4))"
proof (rule shortest_axis_midpoints_edges [where k = 0])
  show "Point_of (edge_midpoint tilted_rectangle (0 + 2)) = Some (3, 4)"
    by (simp only: add_0 tilted_rectangle_points)
qed (simp_all add: tilted_rectangle_side tilted_rectangle_points)

lemma distance_3_4: "double_distance (- 3) (- 4) = Fin 5"
  by (simp add: double_distance_def binary64_fixed_point sqrt_values)

lemma tilted_rectangle_axis:
  "draw_principal_axis (\<lambda>r. r) tilted_rectangle = Some (Line (0, 0) (3, 4))"
  by (simp add: draw_principal_axis_def tilted_rectangle_midpoints)

lemma tilted_rectangle_size: "get_size (\<lambda>r. r) tilted_rectangle = Some (5 / 2)"
  by (simp add: get_size_def tilted_rectangle_midpoints int_minus_def distance_3_4)

lemma tilted_rectangle_exact:
  "exact_midpoint tilted_rectangle 0 = (1 / 4, 1 / 4)"
  "exact_midpoint tilted_rectangle 2 = (23 / 8, 15 / 4)"
  "euclidean_distance (1 / 4, 1 / 4) (23 / 8, 15 / 4) = 35 / 8"
  by (simp_all add: exact_midpoint_def tilted_rectangle_def euclidean_distance_def
        power2_eq_square sqrt_values)

lemma extreme_square_finite: "finite_corners extreme_square"
  by (simp add: extreme_square_def finite_float_def FLT_MAX_def)

lemma float_overflow:
  "binary32 (2 * FLT_MAX) = PInf" "binary32 (- (2 * FLT_MAX)) = NInf" "binary32 0 = Fin 0"
  "binary64 0 = Fin 0"
  by (simp_all add: binary32_def binary64_def fp_round_def FLT_MAX_def round_half_even_def)

lemma extreme_square_lengths:
  "line_length extreme_square 0 = PInf"
  "line_length extreme_square 1 = PInf"
  "line_length extreme_square 2 = PInf"
  "line_length extreme_square 3 = PInf"
  by (simp_all add: line_length_def extreme_square_def sub2f_def float_sub_def norm2f_def
        float_overflow)

lemma extreme_square_side: "shortest_side extreme_square = (Fin DBL_MAX, None)"
  using extreme_square_lengths by (simp add: shortest_side_def side_step_def)

text \<open>
  Claim C5, as stated, at the tilted rectangle.  Its shortest side is side 0.  The
  midpoints of side 0 and of side 2 are \<open>(1/4, 1/4)\<close> and \<open>(23/8, 15/4)\<close>, in \<^verbatim>\<open>float\<close> as
  in exact arithmetic.  The claim has the size equal to half the Euclidean distance
  between them, which is \<open>35/16\<close>; the functions store the two midpoints as \<^verbatim>\<open>Point\<close>s,
  \<open>(0, 0)\<close> and \<open>(3, 4)\<close>: the axis joins these, and \<^verbatim>\<open>get_size\<close> returns \<open>5/2\<close>.
\<close>

theorem get_size_exact_midpoints_counterexample:
  "snd (shortest_side tilted_rectangle) = Some 0
   \<and> edge_midpoint tilted_rectangle 0 = (Fin (1 / 4), Fin (1 / 4))
   \<and> edge_midpoint tilted_rectangle 2 = (Fin (23 / 8), Fin (15 / 4))
   \<and> exact_midpoint tilted_rectangle 0 = (1 / 4, 1 / 4)
   \<and> exact_midpoint tilted_rectangle 2 = (23 / 8, 15 / 4)
   \<and> euclidean_distance (exact_midpoint tilted_rectangle 0) (exact_midpoint tilted_rectangle 2) / 2
       = 35 / 16
   \<and> draw_principal_axis (\<lambda>r. r) tilted_rectangle = Some (Line (0, 0) (3, 4))
   \<and> get_size (\<lambda>r. r) tilted_rectangle = Some (5 / 2)
   \<and> get_size (\<lambda>r. r) tilted_rectangle
       \<noteq> Some (euclidean_distance (exact_midpoint tilted_rectangle 0)
                                    (exact_midpoint tilted_rectangle 2) / 2)"
  by (simp add: tilted_rectangle_side tilted_rectangle_float_midpoints tilted_rectangle_exact
        tilted_rectangle_axis tilted_rectangle_size)

text \<open>
  Claim C5, amended.  For every rotated rectangle given by four corners with coordinates
  of magnitude at most \<open>2 ^ 24\<close>, the loop finds the index \<open>k\<close> of the first side of
  minimal length among the four sides \<open>(j, j + 1 mod 4)\<close>, the lengths being those
  computed in floating point.  The midpoint of side \<open>k\<close> and the midpoint of the opposite
  side \<open>k + 2 mod 4\<close> (joining corners \<open>k + 2\<close> and \<open>k + 3 mod 4\<close>) are computed in \<^verbatim>\<open>float\<close>
  and each rounded to integer pixel coordinates; the principal axis drawn is the segment
  between the two rounded midpoints, and the size returned is half the \<^verbatim>\<open>double\<close> nearest
  to the Euclidean distance between the two rounded midpoints.
\<close>

theorem pose_from_rounded_midpoints:
  assumes "frame_corners (points rectangle)"
  shows "\<exists>k m1 m2 d. k < 4
           \<and> snd (shortest_side (points rectangle)) = Some k
           \<and> (\<forall>j<4. \<not> fp_less (line_length (points rectangle) j) (line_length (points rectangle) k))
           \<and> (\<forall>j<k. fp_less (line_length (points rectangle) k) (line_length (points rectangle) j))
           \<and> Point_of (edge_midpoint (points rectangle) k) = Some m1
           \<and> Point_of (edge_midpoint (points rectangle) (k + 2)) = Some m2
           \<and> draw_principal_axis points rectangle = Some (Line m1 m2)
           \<and> binary64 (sqrt (real_of_int ((fst m1 - fst m2)\<^sup>2 + (snd m1 - snd m2)\<^sup>2))) = Fin d
           \<and> get_size points rectangle = Some (d / 2)"
proof -
  let ?rp = "points rectangle"
  have w: "corners_within (2 ^ 24) ?rp" using assms by (simp only: frame_corners_def)
  have "(2::real) ^ 24 \<le> FLT_MAX / 2" by (simp add: FLT_MAX_def)
  then have "half_range_corners ?rp"
    unfolding half_range_corners_def using w by (rule corners_within_mono)
  then obtain k where k: "k < 4" "shortest_side ?rp = (line_length ?rp k, Some k)"
    "\<forall>j<4. \<not> fp_less (line_length ?rp j) (line_length ?rp k)"
    "\<forall>j<k. fp_less (line_length ?rp k) (line_length ?rp j)"
    using shortest_side_first_minimum [OF line_length_finite] by blast
  have ks: "snd (shortest_side ?rp) = Some k" by (simp add: k(2))
  obtain m1 where m1: "Point_of (edge_midpoint ?rp k) = Some m1"
      "\<bar>fst m1\<bar> \<le> 2 ^ 24" "\<bar>snd m1\<bar> \<le> 2 ^ 24"
    using edge_midpoint_point [OF w] by force
  obtain m2 where m2: "Point_of (edge_midpoint ?rp (k + 2)) = Some m2"
      "\<bar>fst m2\<bar> \<le> 2 ^ 24" "\<bar>snd m2\<bar> \<le> 2 ^ 24"
    using edge_midpoint_point [OF w] by force
  have mid: "shortest_axis_midpoints ?rp = Some (m1, m2)"
    by (rule shortest_axis_midpoints_edges [OF ks k(1) m1(1) m2(1)])
  have dx: "int_minus (fst m1) (fst m2) = Some (fst m1 - fst m2)" "\<bar>fst m1 - fst m2\<bar> \<le> 2 ^ 25"
    using int_minus_range [OF m1(2) m2(2)] by simp_all
  have dy: "int_minus (snd m1) (snd m2) = Some (snd m1 - snd m2)" "\<bar>snd m1 - snd m2\<bar> \<le> 2 ^ 25"
    using int_minus_range [OF m1(3) m2(3)] by simp_all
  obtain d where d: "double_distance (fst m1 - fst m2) (snd m1 - snd m2) = Fin d"
    using double_distance_finite [of "fst m1 - fst m2" "snd m1 - snd m2"] dx(2) dy(2) by auto
  have b: "binary64 (sqrt (real_of_int ((fst m1 - fst m2)\<^sup>2 + (snd m1 - snd m2)\<^sup>2))) = Fin d"
    using d unfolding double_distance_exact [OF dx(2) dy(2)] .
  have ax: "draw_principal_axis points rectangle = Some (Line m1 m2)"
    by (simp add: draw_principal_axis_def mid)
  have sz: "get_size points rectangle = Some (d / 2)"
    by (simp only: get_size_def mid option.case prod.case dx(1) dy(1) d fp.case)
  from k(1) ks k(3,4) m1(1) m2(1) ax b sz show ?thesis by blast
qed

theorem pose_from_rounded_midpoints_witness:
  "frame_corners tilted_rectangle
   \<and> snd (shortest_side tilted_rectangle) = Some 0
   \<and> draw_principal_axis (\<lambda>r. r) tilted_rectangle = Some (Line (0, 0) (3, 4))
   \<and> binary64 (sqrt (real_of_int ((0 - 3)\<^sup>2 + (0 - 4)\<^sup>2))) = Fin 5
   \<and> get_size (\<lambda>r. r) tilted_rectangle = Some (5 / 2)"
proof -
  obtain k m1 m2 d where k: "snd (shortest_side tilted_rectangle) = Some k"
    and m1: "Point_of (edge_midpoint tilted_rectangle k) = Some m1"
    and m2: "Point_of (edge_midpoint tilted_rectangle (k + 2)) = Some m2"
    and ax: "draw_principal_axis (\<lambda>r. r) tilted_rectangle = Some (Line m1 m2)"
    and b: "binary64 (sqrt (real_of_int ((fst m1 - fst m2)\<^sup>2 + (snd m1 - snd m2)\<^sup>2))) = Fin d"
    and sz: "get_size (\<lambda>r. r) tilted_rectangle = Some (d / 2)"
    using pose_from_rounded_midpoints [of "\<lambda>r. r" tilted_rectangle] tilted_rectangle_frame
    by blast
  from k have k0: "k = 0" by (simp add: tilted_rectangle_side)
  from m1 [unfolded k0 tilted_rectangle_points] have p1: "m1 = (0, 0)" by simp
  from m2 [unfolded k0 add_0 tilted_rectangle_points] have p2: "m2 = (3, 4)" by simp
  have "binary64 (sqrt (real_of_int ((0 - 3)\<^sup>2 + (0 - 4)\<^sup>2))) = Fin d"
    using b by (simp only: p1 p2 fst_conv snd_conv)
  moreover have "d = 5" using sz by (simp add: tilted_rectangle_size)
  ultimately show ?thesis
    using tilted_rectangle_frame k ax sz by (simp only: k0 p1 p2)
qed

text \<open>
  Claim C10, as stated, at the square with corners \<open>(\<plusminus>FLT_MAX, \<plusminus>FLT_MAX)\<close>.  All eight
  coordinates are finite.  On each side the difference of the two corners overflows to
  an infinity in one coordinate, so each length is infinite and none is below
  \<^verbatim>\<open>DBL_MAX\<close>: the loop ends with \<^verbatim>\<open>shortest_axis_index\<close> unassigned, and both functions
  read it.
\<close>

theorem extreme_corners_index_unassigned_counterexample:
  "finite_corners extreme_square
   \<and> line_length extreme_square 0 = PInf \<and> line_length extreme_square 1 = PInf
   \<and> line_length extreme_square 2 = PInf \<and> line_length extreme_square 3 = PInf
   \<and> \<not> fp_less PInf (Fin DBL_MAX)
   \<and> snd (shortest_side extreme_square) = None
   \<and> draw_principal_axis (\<lambda>r. r) extreme_square = None
   \<and> get_size (\<lambda>r. r) extreme_square = None"
  using extreme_square_lengths
  by (simp add: extreme_square_finite extreme_square_side
        draw_principal_axis_def get_size_def shortest_axis_midpoints_def)

text \<open>
  Claim C10, amended.  In \<^verbatim>\<open>get_size\<close> and \<^verbatim>\<open>draw_principal_axis\<close>, for every rectangle
  whose four corners have coordinates of magnitude at most half of \<^verbatim>\<open>FLT_MAX\<close>, the
  length of side 0 is strictly below the \<^verbatim>\<open>DBL_MAX\<close> sentinel, so the first iteration of
  the loop already assigns \<^verbatim>\<open>shortest_axis_index\<close>; after the loop the index has a value
  between 0 and 3, so that the midpoint computation does not read it without a value.
  For corners in the range of pixel positions both functions return a result.
\<close>

theorem shortest_axis_index_assigned:
  assumes "half_range_corners (points rectangle)"
  shows "fp_less (line_length (points rectangle) 0) (Fin DBL_MAX)
         \<and> snd (side_step (points rectangle) 0 (Fin DBL_MAX, None)) = Some 0
         \<and> (\<exists>k<4. snd (shortest_side (points rectangle)) = Some k)
         \<and> (pixel_corners (points rectangle) \<longrightarrow>
              draw_principal_axis points rectangle \<noteq> None \<and> get_size points rectangle \<noteq> None)"
proof -
  obtain d where "line_length (points rectangle) 0 = Fin d" "d < DBL_MAX"
    using line_length_finite [OF assms] by blast
  then have l0: "fp_less (line_length (points rectangle) 0) (Fin DBL_MAX)" by simp
  obtain k where "k < 4" "shortest_side (points rectangle) = (line_length (points rectangle) k, Some k)"
    using shortest_side_first_minimum [OF line_length_finite [OF assms]] by blast
  then have "\<exists>k<4. snd (shortest_side (points rectangle)) = Some k" by auto
  moreover have "draw_principal_axis points rectangle \<noteq> None \<and> get_size points rectangle \<noteq> None"
    if "pixel_corners (points rectangle)"
    using draw_principal_axis_defined [of points rectangle] get_size_defined [of points rectangle]
      that by auto
  ultimately show ?thesis
    using l0 by (simp add: side_step_def)
qed

theorem shortest_axis_index_assigned_witness:
  "half_range_corners example_rectangle
   \<and> pixel_corners example_rectangle
   \<and> fp_less (line_length example_rectangle 0) (Fin DBL_MAX)
   \<and> snd (side_step example_rectangle 0 (Fin DBL_MAX, None)) = Some 0
   \<and> draw_principal_axis (\<lambda>r. r) example_rectangle \<noteq> None
   \<and> get_size (\<lambda>r. r) example_rectangle \<noteq> None"
proof -
  have h: "half_range_corners example_rectangle"
    by (simp add: half_range_corners_def example_rectangle_def FLT_MAX_def)
  have p: "pixel_corners example_rectangle"
    by (simp add: example_rectangle_def pixel_range_def)
  show ?thesis
    using shortest_axis_index_assigned [of "\<lambda>r. r" example_rectangle, OF h] h p by simp
qed

subsection \<open>Blob selection\<close>

lemma sibling_chain_unique:
  "sibling_chain h i ks \<Longrightarrow> sibling_chain h i ks' \<Longrightarrow> ks = ks'"
proof (induction ks arbitrary: i ks')
  case Nil
  then show ?case by (cases ks') auto
next
  case (Cons k ks)
  then show ?case by (cases ks') auto
qed

lemma sibling_chain_suffix:
  "sibling_chain h i (pre @ k # post) \<Longrightarrow> sibling_chain h (int k) (k # post)"
  by (induction pre arbitrary: i) auto

lemma sibling_chain_distinct: "sibling_chain h i ks \<Longrightarrow> distinct ks"
proof (induction ks arbitrary: i)
  case Nil
  then show ?case by simp
next
  case (Cons k ks)
  have "k \<notin> set ks"
  proof
    assume "k \<in> set ks"
    then obtain pre post where ks: "ks = pre @ k # post"
      by (auto simp: in_set_conv_decomp)
    from Cons.prems have "sibling_chain h (int k) (k # ks)" by simp
    moreover from Cons.prems have "sibling_chain h (int k) (k # post)"
      using sibling_chain_suffix [of h i "k # pre" k post] by (simp add: ks)
    ultimately have "k # ks = k # post" by (rule sibling_chain_unique)
    then show False by (simp add: ks)
  qed
  moreover have "distinct ks" using Cons by auto
  ultimately show ?case by simp
qed

lemma sibling_chain_bounded: "sibling_chain h i ks \<Longrightarrow> \<forall>k\<in>set ks. k < length h"
  by (induction ks arbitrary: i) auto

lemma sibling_chain_length: 
  assumes "sibling_chain h i ks" shows "length ks \<le> length h"
proof -
  have "set ks \<subseteq> {..<length h}" using sibling_chain_bounded [OF assms] by auto
  then have "card (set ks) \<le> card {..<length h}" by (intro card_mono) auto
  then show ?thesis using sibling_chain_distinct [OF assms] by (simp add: distinct_card)
qed

lemma blob_loop_chain:
  "sibling_chain h i ks \<Longrightarrow> length ks \<le> fuel \<Longrightarrow> length h \<le> length cs \<Longrightarrow>
   blob_loop fuel moments MX cs h i st = Some (fold (blob_step moments MX cs) ks st)"
proof (induction fuel arbitrary: i ks st)
  case 0
  then show ?case by simp
next
  case (Suc fuel)
  show ?case
  proof (cases ks)
    case Nil
    then show ?thesis using Suc.prems by simp
  next
    case (Cons k ks')
    then show ?thesis using Suc.prems Suc.IH [of "fst (h ! k)" ks'] by simp
  qed
qed

lemma select_blob_chain:
  assumes "sibling_chain h 0 ks" "length cs = length h"
  shows "select_blob moments MX cs h = Some (fold (blob_step moments MX cs) ks blob_search_start)"
proof -
  have "h \<noteq> []" using assms(1) by (cases ks) auto
  then show ?thesis
    using blob_loop_chain [OF assms(1) sibling_chain_length [OF assms(1)]] assms(2)
    by (simp add: select_blob_def)
qed

lemma fold_blob_step_found:
  "object_found (fold (blob_step moments MX cs) ks st) \<longleftrightarrow>
     object_found st \<or> (\<exists>i\<in>set ks. within_limits MX (blob_area moments cs i))"
  by (induction ks arbitrary: st) (auto simp: blob_step_def Let_def within_limits_def blob_area_def)

lemma fold_blob_step_keep:
  "\<forall>i\<in>set ks. within_limits MX (blob_area moments cs i) \<longrightarrow> blob_area moments cs i \<le> max_area st \<Longrightarrow>
   max_area (fold (blob_step moments MX cs) ks st) = max_area st
   \<and> max_area_object_x (fold (blob_step moments MX cs) ks st) = max_area_object_x st
   \<and> max_area_object_y (fold (blob_step moments MX cs) ks st) = max_area_object_y st
   \<and> max_area_contour_index (fold (blob_step moments MX cs) ks st) = max_area_contour_index st"
  by (induction ks arbitrary: st) (auto simp: blob_step_def Let_def within_limits_def blob_area_def)

lemma blob_step_new_max:
  assumes "within_limits MX (blob_area moments cs i)" "max_area st < blob_area moments cs i"
  shows "max_area (blob_step moments MX cs i st) = blob_area moments cs i"
    "max_area_contour_index (blob_step moments MX cs i st) = int i"
    "(max_area_object_x (blob_step moments MX cs i st), max_area_object_y (blob_step moments MX cs i st))
       = centroid (moments (cs ! i))"
  using assms by (simp_all add: blob_step_def Let_def within_limits_def blob_area_def centroid_def)

lemma blob_step_no_new_max:
  assumes "\<not> (within_limits MX (blob_area moments cs i) \<and> max_area st < blob_area moments cs i)"
  shows "max_area (blob_step moments MX cs i st) = max_area st"
    "max_area_contour_index (blob_step moments MX cs i st) = max_area_contour_index st"
    "max_area_object_x (blob_step moments MX cs i st) = max_area_object_x st"
    "max_area_object_y (blob_step moments MX cs i st) = max_area_object_y st"
  using assms by (auto simp add: blob_step_def Let_def within_limits_def blob_area_def)

lemma fold_blob_step_take:
  "\<exists>i\<in>set ks. within_limits MX (blob_area moments cs i) \<and> max_area st < blob_area moments cs i \<Longrightarrow>
   \<exists>pre k post. ks = pre @ k # post \<and> within_limits MX (blob_area moments cs k)
     \<and> max_area st < blob_area moments cs k
     \<and> (\<forall>j\<in>set pre. within_limits MX (blob_area moments cs j) \<longrightarrow> blob_area moments cs j < blob_area moments cs k)
     \<and> (\<forall>j\<in>set post. within_limits MX (blob_area moments cs j) \<longrightarrow> blob_area moments cs j \<le> blob_area moments cs k)
     \<and> max_area (fold (blob_step moments MX cs) ks st) = blob_area moments cs k
     \<and> max_area_contour_index (fold (blob_step moments MX cs) ks st) = int k
     \<and> (max_area_object_x (fold (blob_step moments MX cs) ks st),
         max_area_object_y (fold (blob_step moments MX cs) ks st)) = centroid (moments (cs ! k))"
proof (induction ks arbitrary: st)
  case Nil
  then show ?case by simp
next
  case (Cons i ks)
  let ?W = "\<lambda>i. within_limits MX (blob_area moments cs i)"
  let ?A = "blob_area moments cs"
  let ?st1 = "blob_step moments MX cs i st"
  show ?case
  proof (cases "?W i \<and> max_area st < ?A i")
    case True
    note new = blob_step_new_max [OF conjunct1 [OF True] conjunct2 [OF True]]
    show ?thesis
    proof (cases "\<exists>j\<in>set ks. ?W j \<and> max_area ?st1 < ?A j")
      case False
      then have "\<forall>j\<in>set ks. ?W j \<longrightarrow> ?A j \<le> max_area ?st1" by auto
      from fold_blob_step_keep [OF this] False True new
      show ?thesis
        by (intro exI[of _ "[]"] exI[of _ i] exI[of _ ks]) (auto simp: not_less)
    next
      case later: True
      from Cons.IH [OF later] obtain pre k post where
        k: "ks = pre @ k # post" "?W k" "max_area ?st1 < ?A k"
          "\<forall>j\<in>set pre. ?W j \<longrightarrow> ?A j < ?A k" "\<forall>j\<in>set post. ?W j \<longrightarrow> ?A j \<le> ?A k"
          "max_area (fold (blob_step moments MX cs) ks ?st1) = ?A k"
          "max_area_contour_index (fold (blob_step moments MX cs) ks ?st1) = int k"
          "(max_area_object_x (fold (blob_step moments MX cs) ks ?st1),
            max_area_object_y (fold (blob_step moments MX cs) ks ?st1)) = centroid (moments (cs ! k))"
        by blast
      have "max_area st < ?A k" "?A i < ?A k" using k(3) True new(1) by auto
      then show ?thesis using k
        by (intro exI[of _ "i # pre"] exI[of _ k] exI[of _ post]) auto
    qed
  next
    case False
    note old = blob_step_no_new_max [OF False]
    from Cons.prems False have "\<exists>j\<in>set ks. ?W j \<and> max_area ?st1 < ?A j"
      by (auto simp: old(1))
    from Cons.IH [OF this] obtain pre k post where
        k: "ks = pre @ k # post" "?W k" "max_area ?st1 < ?A k"
          "\<forall>j\<in>set pre. ?W j \<longrightarrow> ?A j < ?A k" "\<forall>j\<in>set post. ?W j \<longrightarrow> ?A j \<le> ?A k"
          "max_area (fold (blob_step moments MX cs) ks ?st1) = ?A k"
          "max_area_contour_index (fold (blob_step moments MX cs) ks ?st1) = int k"
          "(max_area_object_x (fold (blob_step moments MX cs) ks ?st1),
            max_area_object_y (fold (blob_step moments MX cs) ks ?st1)) = centroid (moments (cs ! k))"
        by blast
    have "max_area st < ?A k" "?W i \<longrightarrow> ?A i < ?A k" using k(3) False old(1) by auto
    then show ?thesis using k
      by (intro exI[of _ "i # pre"] exI[of _ k] exI[of _ post]) auto
  qed
qed

lemma ex_moments:
  "polygon_moments (box_contour 40 0 5 5) = \<lparr>m00 = 25, m10 = 2125 / 2, m01 = 125 / 2\<rparr>"
  "polygon_moments (box_contour 0 0 10 10) = \<lparr>m00 = 100, m10 = 500, m01 = 500\<rparr>"
  "polygon_moments (box_contour 20 20 10 10) = \<lparr>m00 = 100, m10 = 2500, m01 = 2500\<rparr>"
  "polygon_moments (box_contour 0 0 1 1) = \<lparr>m00 = 1, m10 = 1 / 2, m01 = 1 / 2\<rparr>"
  "polygon_moments (box_contour 0 0 2 1) = \<lparr>m00 = 2, m10 = 2, m01 = 1\<rparr>"
  by (simp_all add: polygon_moments_def box_contour_def Let_def)

lemma ex_chain: "sibling_chain example_hierarchy 0 [0, 1, 2]"
  by (simp add: example_hierarchy_def)

lemma ex_select:
  "select_blob polygon_moments 307200 example_contours example_hierarchy
     = Some \<lparr>object_found = True, max_area = 100, max_area_object_x = 5, max_area_object_y = 5,
             max_area_contour_index = 1\<rparr>"
  by (simp add: select_blob_def example_contours_def example_hierarchy_def blob_step_def Let_def
        ex_moments MIN_BLOB_AREA_def blob_search_start_def trunc_int_def)

lemma unit_select:
  "select_blob polygon_moments 307200 [box_contour 0 0 1 1] [(- 1, - 1, - 1, - 1)] = Some blob_search_start"
  "select_blob polygon_moments 307200 [box_contour 0 0 2 1] [(- 1, - 1, - 1, - 1)]
     = Some \<lparr>object_found = True, max_area = 2, max_area_object_x = 1, max_area_object_y = 0,
             max_area_contour_index = 0\<rparr>"
  by (simp_all add: select_blob_def blob_step_def Let_def
        ex_moments MIN_BLOB_AREA_def blob_search_start_def trunc_int_def)


lemma fold_blob_step_start_none:
  assumes "\<forall>i\<in>set ks. \<not> within_limits MX (blob_area moments cs i)"
  shows "fold (blob_step moments MX cs) ks st = st"
  using assms by (induction ks arbitrary: st) (auto simp: blob_step_def Let_def within_limits_def blob_area_def)

lemma within_limits_above_start:
  "within_limits MX a \<Longrightarrow> max_area blob_search_start < a"
  by (simp add: within_limits_def blob_search_start_def MIN_BLOB_AREA_def)

text \<open>
  Claim C3.  Let \<open>order\<close> be the contours in the order the loop visits them.  When some of
  them have an area strictly between \<^verbatim>\<open>MIN_BLOB_AREA\<close> and \<^verbatim>\<open>MAX_BLOB_AREA\<close>, the search
  ends with \<^verbatim>\<open>object_found\<close> true and with the index and the centroid (\<open>m10 / m00\<close> and
  \<open>m01 / m00\<close>, truncated to whole pixels) of a contour \<open>k\<close> within the limits whose
  area is strictly greater than that of every contour within the limits visited before
  it and at least that of every one visited after it: the largest, and among equally
  large ones the first visited.  When none is within the limits,
  \<^verbatim>\<open>object_found\<close> is false, no index is recorded and nothing is drawn on the frame.
\<close>

theorem select_blob_first_largest:
  assumes "sibling_chain hierarchy 0 order" and "length contours = length hierarchy"
  shows "\<exists>st. select_blob moments MAX_BLOB_AREA contours hierarchy = Some st
     \<and> (if \<exists>i\<in>set order. within_limits MAX_BLOB_AREA (blob_area moments contours i)
        then object_found st
             \<and> (\<exists>pre k post. order = pre @ k # post
                  \<and> within_limits MAX_BLOB_AREA (blob_area moments contours k)
                  \<and> (\<forall>j\<in>set pre. within_limits MAX_BLOB_AREA (blob_area moments contours j)
                        \<longrightarrow> blob_area moments contours j < blob_area moments contours k)
                  \<and> (\<forall>j\<in>set post. within_limits MAX_BLOB_AREA (blob_area moments contours j)
                        \<longrightarrow> blob_area moments contours j \<le> blob_area moments contours k)
                  \<and> max_area_contour_index st = int k
                  \<and> (max_area_object_x st, max_area_object_y st) = centroid (moments (contours ! k)))
        else \<not> object_found st \<and> max_area_contour_index st = - 1
             \<and> track_static moments fitEllipse points MAX_BLOB_AREA resized_video_size contours hierarchy
                 = Some (st, []))"
proof -
  let ?st = "fold (blob_step moments MAX_BLOB_AREA contours) order blob_search_start"
  have sel: "select_blob moments MAX_BLOB_AREA contours hierarchy = Some ?st"
    by (rule select_blob_chain [OF assms])
  have ne: "length hierarchy > 0" using assms(1) by (cases order) auto
  show ?thesis
  proof (cases "\<exists>i\<in>set order. within_limits MAX_BLOB_AREA (blob_area moments contours i)")
    case True
    then have "\<exists>i\<in>set order. within_limits MAX_BLOB_AREA (blob_area moments contours i)
                 \<and> max_area blob_search_start < blob_area moments contours i"
      using within_limits_above_start by blast
    from fold_blob_step_take [OF this] 
    have "\<exists>pre k post. order = pre @ k # post
                  \<and> within_limits MAX_BLOB_AREA (blob_area moments contours k)
                  \<and> (\<forall>j\<in>set pre. within_limits MAX_BLOB_AREA (blob_area moments contours j)
                        \<longrightarrow> blob_area moments contours j < blob_area moments contours k)
                  \<and> (\<forall>j\<in>set post. within_limits MAX_BLOB_AREA (blob_area moments contours j)
                        \<longrightarrow> blob_area moments contours j \<le> blob_area moments contours k)
                  \<and> max_area_contour_index ?st = int k
                  \<and> (max_area_object_x ?st, max_area_object_y ?st) = centroid (moments (contours ! k))"
      by blast
    moreover have "object_found ?st" using True by (simp add: fold_blob_step_found)
    ultimately show ?thesis using True sel by simp
  next
    case False
    then have st: "?st = blob_search_start" by (intro fold_blob_step_start_none) simp
    have sel': "select_blob moments MAX_BLOB_AREA contours hierarchy = Some blob_search_start"
      using sel by (simp only: st)
    have start: "\<not> object_found blob_search_start" "max_area_contour_index blob_search_start = - 1"
      by (simp_all add: blob_search_start_def)
    have "track_static moments fitEllipse points MAX_BLOB_AREA resized_video_size contours hierarchy
                 = Some (blob_search_start, [])"
      using ne by (simp add: track_static_def sel' draw_pose_def start)
    then show ?thesis using False sel' start by simp
  qed
qed

theorem select_blob_first_largest_witness:
  "sibling_chain example_hierarchy 0 [0, 1, 2]
   \<and> length example_contours = length example_hierarchy
   \<and> blob_area polygon_moments example_contours 0 = 25
   \<and> blob_area polygon_moments example_contours 1 = 100
   \<and> blob_area polygon_moments example_contours 2 = 100
   \<and> (\<exists>st. select_blob polygon_moments 307200 example_contours example_hierarchy = Some st
         \<and> object_found st \<and> max_area_contour_index st = 1
         \<and> (max_area_object_x st, max_area_object_y st) = (5, 5))"
  using select_blob_first_largest [OF ex_chain, of example_contours polygon_moments 307200]
  by (simp add: ex_select ex_chain) (simp add: example_contours_def example_hierarchy_def blob_area_def ex_moments)

text \<open>
  Claim C4.  The area filter is exclusive at both ends.  The search finds an object if and
  only if some visited contour has \<open>MIN_BLOB_AREA < area < MAX_BLOB_AREA\<close>; contours of
  area exactly \<^verbatim>\<open>MIN_BLOB_AREA\<close> or exactly \<^verbatim>\<open>MAX_BLOB_AREA\<close> are not found; a contour of
  area \<open>MIN_BLOB_AREA + 1\<close> is found (when that is below \<^verbatim>\<open>MAX_BLOB_AREA\<close>); and a contour
  outside the limits leaves every variable of the search as it was.
\<close>

theorem area_limits_exclusive:
  assumes "sibling_chain hierarchy 0 order" and "length contours = length hierarchy"
  shows "\<exists>st. select_blob moments MAX_BLOB_AREA contours hierarchy = Some st
     \<and> (object_found st \<longleftrightarrow>
          (\<exists>i\<in>set order. real_of_int MIN_BLOB_AREA < m00 (moments (contours ! i))
                           \<and> m00 (moments (contours ! i)) < real_of_int MAX_BLOB_AREA))
     \<and> ((\<forall>i\<in>set order. m00 (moments (contours ! i)) = real_of_int MIN_BLOB_AREA
                         \<or> m00 (moments (contours ! i)) = real_of_int MAX_BLOB_AREA)
          \<longrightarrow> \<not> object_found st)
     \<and> ((\<exists>i\<in>set order. m00 (moments (contours ! i)) = real_of_int (MIN_BLOB_AREA + 1))
            \<and> MIN_BLOB_AREA + 1 < MAX_BLOB_AREA
          \<longrightarrow> object_found st)
     \<and> (\<forall>i st0. \<not> (real_of_int MIN_BLOB_AREA < m00 (moments (contours ! i))
                      \<and> m00 (moments (contours ! i)) < real_of_int MAX_BLOB_AREA)
          \<longrightarrow> blob_step moments MAX_BLOB_AREA contours i st0 = st0)"
proof -
  let ?st = "fold (blob_step moments MAX_BLOB_AREA contours) order blob_search_start"
  have sel: "select_blob moments MAX_BLOB_AREA contours hierarchy = Some ?st"
    by (rule select_blob_chain [OF assms])
  have found: "object_found ?st \<longleftrightarrow>
          (\<exists>i\<in>set order. real_of_int MIN_BLOB_AREA < m00 (moments (contours ! i))
                           \<and> m00 (moments (contours ! i)) < real_of_int MAX_BLOB_AREA)"
    by (simp add: fold_blob_step_found within_limits_def blob_area_def blob_search_start_def)
  have "(\<forall>i\<in>set order. m00 (moments (contours ! i)) = real_of_int MIN_BLOB_AREA
                         \<or> m00 (moments (contours ! i)) = real_of_int MAX_BLOB_AREA)
          \<longrightarrow> \<not> object_found ?st"
    unfolding found by auto
  moreover have "(\<exists>i\<in>set order. m00 (moments (contours ! i)) = real_of_int (MIN_BLOB_AREA + 1))
            \<and> MIN_BLOB_AREA + 1 < MAX_BLOB_AREA
          \<longrightarrow> object_found ?st"
  proof
    assume a: "(\<exists>i\<in>set order. m00 (moments (contours ! i)) = real_of_int (MIN_BLOB_AREA + 1))
            \<and> MIN_BLOB_AREA + 1 < MAX_BLOB_AREA"
    then obtain i where i: "i \<in> set order" "m00 (moments (contours ! i)) = real_of_int (MIN_BLOB_AREA + 1)"
      by blast
    have "real_of_int (MIN_BLOB_AREA + 1) < real_of_int MAX_BLOB_AREA"
      using a by (simp only: of_int_less_iff)
    moreover have "real_of_int MIN_BLOB_AREA < real_of_int (MIN_BLOB_AREA + 1)"
      by simp
    ultimately show "object_found ?st"
      unfolding found using i by (intro bexI[of _ i]) simp_all
  qed
  moreover have "\<forall>i st0. \<not> (real_of_int MIN_BLOB_AREA < m00 (moments (contours ! i))
                      \<and> m00 (moments (contours ! i)) < real_of_int MAX_BLOB_AREA)
          \<longrightarrow> blob_step moments MAX_BLOB_AREA contours i st0 = st0"
    by (auto simp: blob_step_def Let_def)
  ultimately show ?thesis using sel found by blast
qed

theorem area_limits_exclusive_witness:
  "sibling_chain [(- 1, - 1, - 1, - 1)] 0 [0]
   \<and> m00 (polygon_moments (box_contour 0 0 1 1)) = real_of_int MIN_BLOB_AREA
   \<and> (\<exists>st. select_blob polygon_moments 307200 [box_contour 0 0 1 1] [(- 1, - 1, - 1, - 1)] = Some st
         \<and> \<not> object_found st)
   \<and> m00 (polygon_moments (box_contour 0 0 2 1)) = real_of_int (MIN_BLOB_AREA + 1)
   \<and> (\<exists>st. select_blob polygon_moments 307200 [box_contour 0 0 2 1] [(- 1, - 1, - 1, - 1)] = Some st
         \<and> object_found st)"
  using area_limits_exclusive [of "[(- 1, - 1, - 1, - 1)]" "[0]" "[box_contour 0 0 1 1]" polygon_moments 307200]
    area_limits_exclusive [of "[(- 1, - 1, - 1, - 1)]" "[0]" "[box_contour 0 0 2 1]" polygon_moments 307200]
  by (simp add: unit_select ex_moments MIN_BLOB_AREA_def blob_search_start_def)

subsection \<open>Position and pose on the frame\<close>

lemma four_point_frame:
  "track_static polygon_moments (\<lambda>c. example_rectangle) (\<lambda>r. r) 307200 (640, 480)
     [box_contour 0 0 10 10] [(- 1, - 1, - 1, - 1)]
   = Some (\<lparr>object_found = True, max_area = 100, max_area_object_x = 5, max_area_object_y = 5,
             max_area_contour_index = 0\<rparr>, [])"
  by (simp add: track_static_def draw_pose_def select_blob_def blob_step_def Let_def
        ex_moments MIN_BLOB_AREA_def blob_search_start_def trunc_int_def)
     (simp add: box_contour_def)

lemma position_drawn_crosshairs:
  "position_drawn (axis # draw_object_position camshift rvs x y radius) (x, y)"
  by (simp add: position_drawn_def draw_object_position_def Let_def)

lemma found_index_in_chain:
  assumes "object_found (fold (blob_step moments MX cs) ks blob_search_start)"
  shows "\<exists>k\<in>set ks. max_area_contour_index (fold (blob_step moments MX cs) ks blob_search_start) = int k"
proof -
  from assms have "\<exists>i\<in>set ks. within_limits MX (blob_area moments cs i)"
    by (simp add: fold_blob_step_found blob_search_start_def)
  then have "\<exists>i\<in>set ks. within_limits MX (blob_area moments cs i)
                 \<and> max_area blob_search_start < blob_area moments cs i"
    using within_limits_above_start by blast
  from fold_blob_step_take [OF this] show ?thesis by fastforce
qed

text \<open>
  Claim C1, as stated, on a frame whose only contour is a square given by its four
  corners.  The square is within the area limits, so \<^verbatim>\<open>object_found\<close> is true and the
  centroid \<open>(5, 5)\<close> is computed; the contour has 4 points, and the call of
  \<^verbatim>\<open>draw_object_position\<close> stands inside the same \<^verbatim>\<open>if\<close> as the pose, so nothing at all is
  drawn: the position is not reported.
\<close>

theorem four_point_contour_no_position_counterexample:
  "length (box_contour 0 0 10 10) = 4
   \<and> track_static polygon_moments (\<lambda>c. example_rectangle) (\<lambda>r. r) 307200 (640, 480)
       [box_contour 0 0 10 10] [(- 1, - 1, - 1, - 1)]
     = Some (\<lparr>object_found = True, max_area = 100, max_area_object_x = 5, max_area_object_y = 5,
               max_area_contour_index = 0\<rparr>, [])
   \<and> \<not> position_drawn [] (5, 5)"
  by (simp add: four_point_frame position_drawn_def) (simp add: box_contour_def)

text \<open>
  Claim C1, amended.  When an object is found and the boundary of the selected region has
  4 or fewer points, the frame gets no drawing at all: orientation, size and the position
  crosshairs are all omitted, while \<^verbatim>\<open>object_found\<close> stays true and the centroid stays in
  \<^verbatim>\<open>max_area_object_x\<close>, \<^verbatim>\<open>max_area_object_y\<close>.  The position is drawn together with the
  pose, when the boundary has more than 4 points (and the corners of the fitted rectangle
  are in the range of pixel positions): then the axis and the crosshairs at the centroid
  are drawn.
\<close>

theorem position_drawn_only_with_pose:
  assumes "sibling_chain hierarchy 0 order" and "length contours = length hierarchy"
    and "select_blob moments MAX_BLOB_AREA contours hierarchy = Some st"
    and "object_found st"
  shows "(length (contours ! nat (max_area_contour_index st)) \<le> 4 \<longrightarrow>
            track_static moments fitEllipse points MAX_BLOB_AREA resized_video_size contours hierarchy
              = Some (st, [])
            \<and> \<not> position_drawn [] (max_area_object_x st, max_area_object_y st))
       \<and> (4 < length (contours ! nat (max_area_contour_index st))
            \<and> pixel_corners (points (fitEllipse (contours ! nat (max_area_contour_index st)))) \<longrightarrow>
            (\<exists>axis object_size.
               draw_principal_axis points (fitEllipse (contours ! nat (max_area_contour_index st))) = Some axis
               \<and> get_size points (fitEllipse (contours ! nat (max_area_contour_index st))) = Some object_size
               \<and> track_static moments fitEllipse points MAX_BLOB_AREA resized_video_size contours hierarchy
                   = Some (st, axis # draw_object_position False resized_video_size
                                       (max_area_object_x st) (max_area_object_y st) object_size)
               \<and> position_drawn (axis # draw_object_position False resized_video_size
                                       (max_area_object_x st) (max_area_object_y st) object_size)
                    (max_area_object_x st, max_area_object_y st)))"
proof -
  have st: "st = fold (blob_step moments MAX_BLOB_AREA contours) order blob_search_start"
    using select_blob_chain [OF assms(1,2), of moments MAX_BLOB_AREA] assms(3) by simp
  obtain k where k: "k \<in> set order" "max_area_contour_index st = int k"
    using found_index_in_chain assms(4) unfolding st by blast
  have kb: "k < length contours"
    using sibling_chain_bounded [OF assms(1)] k(1) assms(2) by simp
  have ne: "length hierarchy > 0" using assms(1) by (cases order) auto
  let ?c = "contours ! k"
  have few: "length ?c \<le> 4 \<longrightarrow>
      track_static moments fitEllipse points MAX_BLOB_AREA resized_video_size contours hierarchy = Some (st, [])"
    using ne kb assms(3,4) by (simp add: track_static_def draw_pose_def k(2))
  have many: "\<exists>axis object_size.
               draw_principal_axis points (fitEllipse ?c) = Some axis
               \<and> get_size points (fitEllipse ?c) = Some object_size
               \<and> track_static moments fitEllipse points MAX_BLOB_AREA resized_video_size contours hierarchy
                   = Some (st, axis # draw_object_position False resized_video_size
                                       (max_area_object_x st) (max_area_object_y st) object_size)"
    if long: "4 < length ?c" and fin: "pixel_corners (points (fitEllipse ?c))"
  proof -
    have "\<exists>axis. draw_principal_axis points (fitEllipse ?c) = Some axis"
      using draw_principal_axis_defined [of points "fitEllipse ?c"] fin by blast
    moreover have "\<exists>object_size. get_size points (fitEllipse ?c) = Some object_size"
      using get_size_defined [of points "fitEllipse ?c"] fin by blast
    ultimately obtain axis object_size where
      "draw_principal_axis points (fitEllipse ?c) = Some axis"
      "get_size points (fitEllipse ?c) = Some object_size"
      by blast
    then show ?thesis
      using ne kb assms(3,4) long by (simp add: track_static_def draw_pose_def k(2) Let_def)
  qed
  show ?thesis
    using few many position_drawn_crosshairs
    by (simp add: k(2) position_drawn_def)
qed

theorem position_drawn_only_with_pose_witness:
  "sibling_chain [(- 1, - 1, - 1, - 1)] 0 [0]
   \<and> select_blob polygon_moments 307200 [box_contour 0 0 10 10] [(- 1, - 1, - 1, - 1)]
       = Some \<lparr>object_found = True, max_area = 100, max_area_object_x = 5, max_area_object_y = 5,
               max_area_contour_index = 0\<rparr>
   \<and> length ([box_contour 0 0 10 10] ! 0) \<le> 4
   \<and> track_static polygon_moments (\<lambda>c. example_rectangle) (\<lambda>r. r) 307200 (640, 480)
       [box_contour 0 0 10 10] [(- 1, - 1, - 1, - 1)]
     = Some (\<lparr>object_found = True, max_area = 100, max_area_object_x = 5, max_area_object_y = 5,
               max_area_contour_index = 0\<rparr>, [])"
proof -
  have sel: "select_blob polygon_moments 307200 [box_contour 0 0 10 10] [(- 1, - 1, - 1, - 1)]
       = Some \<lparr>object_found = True, max_area = 100, max_area_object_x = 5, max_area_object_y = 5,
               max_area_contour_index = 0\<rparr>"
    by (simp add: select_blob_def blob_step_def Let_def ex_moments MIN_BLOB_AREA_def
          blob_search_start_def trunc_int_def)
  have len: "length ([box_contour 0 0 10 10] ! 0) \<le> 4" by (simp add: box_contour_def)
  have ch: "sibling_chain [(- 1, - 1, - 1, - 1)] 0 [0]" by simp
  show ?thesis
    using position_drawn_only_with_pose [OF ch _ sel, of "\<lambda>c. example_rectangle" "\<lambda>r. r" "(640, 480)"]
      sel len by simp
qed


subsection \<open>The mask and the contour step\<close>

text \<open>
  Claim C9.  Blob selection does not mutate the mask it is given.  Contour extraction runs
  on a copy in a buffer of its own, so whatever \<^verbatim>\<open>findContours\<close> writes into its image, the
  pixels of the eroded and dilated threshold image, and of every other image that existed
  before, are the same after region extraction and selection as before; and the regions
  selected from are those of the mask's pixels.
\<close>

theorem mask_not_mutated:
  assumes "eroded_dilated_threshold < length mem"
  shows "snd (find_and_select findContours moments MAX_BLOB_AREA eroded_dilated_threshold mem)
           ! eroded_dilated_threshold = mem ! eroded_dilated_threshold
       \<and> (\<forall>m<length mem.
             snd (find_and_select findContours moments MAX_BLOB_AREA eroded_dilated_threshold mem) ! m
               = mem ! m)
       \<and> fst (find_and_select findContours moments MAX_BLOB_AREA eroded_dilated_threshold mem)
           = select_blob moments MAX_BLOB_AREA
               (fst (snd (findContours (mem ! eroded_dilated_threshold))))
               (snd (snd (findContours (mem ! eroded_dilated_threshold))))"
  using assms
  by (simp add: find_and_select_def copyTo_def findContours_on_def split: prod.splits)
     (auto simp: nth_append)

theorem mask_not_mutated_witness:
  "snd (find_and_select (\<lambda>img. (map (map (\<lambda>p. 0)) img, example_contours, example_hierarchy))
          polygon_moments 307200 0 [[[255, 0], [0, 255]]])
     = [[[255, 0], [0, 255]], [[0, 0], [0, 0]]]"
  using mask_not_mutated [of 0 "[[[255, 0], [0, 255]]]"
      "\<lambda>img. (map (map (\<lambda>p. 0)) img, example_contours, example_hierarchy)" polygon_moments 307200]
  by (simp add: find_and_select_def copyTo_def findContours_on_def)

subsection \<open>The adaptive tracker\<close>

text \<open>
  Claim C2 on two windows of area 1, on a frame of 480 rows and 640 columns.  The size
  computed is 80.  The program passes \<open>x - 80\<close>, \<open>y - 80\<close>, \<open>x + 80\<close>, \<open>y + 80\<close> to \<^verbatim>\<open>Rect\<close>,
  whose third and fourth arguments are a width and a height: for the window at
  \<open>(100, 50)\<close> the result is 180 wide and 100 high after clipping, where the square centred
  there is 160 wide and 130 high after clipping; for the window at \<open>(0, 0)\<close> the
  result is the empty rectangle, where the centred square clipped is 80 by 80.
\<close>

theorem reinflate_not_centred:
  "rect_area (Rect 100 50 1 1) \<le> 1
   \<and> (min 640 480 + 5) div 6 = (80 :: int)
   \<and> reinflate (Rect 100 50 1 1) 640 480 = Rect 20 0 180 100
   \<and> centred_window (Rect 100 50 1 1) 640 480 = Rect 20 0 160 130
   \<and> rect_area (Rect 0 0 1 1) \<le> 1
   \<and> reinflate (Rect 0 0 1 1) 640 480 = Rect 0 0 0 0
   \<and> centred_window (Rect 0 0 1 1) 640 480 = Rect 0 0 80 80"
  by (simp add: reinflate_def centred_window_def rect_and_def rect_area_def Let_def)

lemma rect_and_positive:
  "rect_and a b = Rect 0 0 0 0 \<or> (0 < rect_width (rect_and a b) \<and> 0 < rect_height (rect_and a b))"
proof -
  define w where "w = min (rect_x a + rect_width a) (rect_x b + rect_width b) - max (rect_x a) (rect_x b)"
  define h where "h = min (rect_y a + rect_height a) (rect_y b + rect_height b) - max (rect_y a) (rect_y b)"
  have "rect_and a b =
      (if w \<le> 0 \<or> h \<le> 0 then Rect 0 0 0 0
       else Rect (max (rect_x a) (rect_x b)) (max (rect_y a) (rect_y b)) w h)"
    by (simp only: rect_and_def Let_def w_def h_def)
  then show ?thesis by (cases "w \<le> 0 \<or> h \<le> 0") auto
qed

lemma fold_moves:
  assumes "select_object t"
  shows "select_object (fold (\<lambda>p. onMouse EVENT_MOUSEMOVE (fst p) (snd p)) moves t)
       \<and> track_object (fold (\<lambda>p. onMouse EVENT_MOUSEMOVE (fst p) (snd p)) moves t) = track_object t
       \<and> histogram (fold (\<lambda>p. onMouse EVENT_MOUSEMOVE (fst p) (snd p)) moves t) = histogram t
       \<and> paused (fold (\<lambda>p. onMouse EVENT_MOUSEMOVE (fst p) (snd p)) moves t) = paused t
       \<and> origin (fold (\<lambda>p. onMouse EVENT_MOUSEMOVE (fst p) (snd p)) moves t) = origin t
       \<and> frame_cols (fold (\<lambda>p. onMouse EVENT_MOUSEMOVE (fst p) (snd p)) moves t) = frame_cols t
       \<and> frame_rows (fold (\<lambda>p. onMouse EVENT_MOUSEMOVE (fst p) (snd p)) moves t) = frame_rows t"
  using assms by (induction moves arbitrary: t) (simp_all add: onMouse_def)

lemma gesture_selection:
  "selection (selection_gesture p0 moves p1 t)
     = rect_and (Rect (min (fst p1) (fst p0)) (min (snd p1) (snd p0))
                      \<bar>fst p1 - fst p0\<bar> \<bar>snd p1 - snd p0\<bar>)
                (Rect 0 0 (frame_cols t) (frame_rows t))"
proof -
  let ?t1 = "onMouse EVENT_RBUTTONDOWN (fst p0) (snd p0) t"
  have "select_object ?t1" "origin ?t1 = p0" "frame_cols ?t1 = frame_cols t" "frame_rows ?t1 = frame_rows t"
    by (simp_all add: onMouse_def)
  with fold_moves [of ?t1 moves] show ?thesis
    by (simp add: selection_gesture_def onMouse_def [of EVENT_LBUTTONUP] Let_def)
qed

lemma gesture_state:
  assumes "track_object t = 0"
  shows "\<not> select_object (selection_gesture p0 moves p1 t)"
    and "histogram (selection_gesture p0 moves p1 t) = histogram t"
    and "paused (selection_gesture p0 moves p1 t) = paused t"
    and "track_object (selection_gesture p0 moves p1 t) =
          (if 0 < rect_width (selection (selection_gesture p0 moves p1 t))
              \<and> 0 < rect_height (selection (selection_gesture p0 moves p1 t)) then - 1 else 0)"
proof -
  let ?t1 = "onMouse EVENT_RBUTTONDOWN (fst p0) (snd p0) t"
  have "select_object ?t1" "track_object ?t1 = 0" "histogram ?t1 = histogram t" "paused ?t1 = paused t"
    using assms by (simp_all add: onMouse_def)
  with fold_moves [of ?t1 moves] 
  show "\<not> select_object (selection_gesture p0 moves p1 t)"
    and "histogram (selection_gesture p0 moves p1 t) = histogram t"
    and "paused (selection_gesture p0 moves p1 t) = paused t"
    and "track_object (selection_gesture p0 moves p1 t) =
          (if 0 < rect_width (selection (selection_gesture p0 moves p1 t))
              \<and> 0 < rect_height (selection (selection_gesture p0 moves p1 t)) then - 1 else 0)"
    by (simp_all add: selection_gesture_def onMouse_def [of EVENT_LBUTTONUP] Let_def)
qed

text \<open>
  Claim C6.  Start from Idle and make a selection: button down, any number of moves,
  button up.  When the final rectangle has nonzero width and nonzero height,
  the tracker is Initializing after the button is released and Tracking after the next
  processed frame, with the histogram learned from the selection on that frame.  When
  the final rectangle has zero width or zero height, the tracker is Idle again after the
  button is released, its histogram is the one it had, and the next frame changes
  nothing.
\<close>

theorem selection_starts_tracking:
  assumes "track_state t = Idle"
  shows "(rect_width (selection (selection_gesture p0 moves p1 t)) \<noteq> 0
          \<and> rect_height (selection (selection_gesture p0 moves p1 t)) \<noteq> 0 \<longrightarrow>
            track_state (selection_gesture p0 moves p1 t) = Initializing
          \<and> track_state (fst (track_camshift calcHist CamShift points resized_video_size frame
                                (selection_gesture p0 moves p1 t))) = Tracking
          \<and> track_object (fst (track_camshift calcHist CamShift points resized_video_size frame
                                (selection_gesture p0 moves p1 t))) = 1
          \<and> histogram (fst (track_camshift calcHist CamShift points resized_video_size frame
                                (selection_gesture p0 moves p1 t)))
              = calcHist frame (selection (selection_gesture p0 moves p1 t)))
       \<and> (rect_width (selection (selection_gesture p0 moves p1 t)) = 0
          \<or> rect_height (selection (selection_gesture p0 moves p1 t)) = 0 \<longrightarrow>
            track_state (selection_gesture p0 moves p1 t) = Idle
          \<and> histogram (selection_gesture p0 moves p1 t) = histogram t
          \<and> track_camshift calcHist CamShift points resized_video_size frame
               (selection_gesture p0 moves p1 t) = (selection_gesture p0 moves p1 t, Some []))"
proof -
  let ?g = "selection_gesture p0 moves p1 t"
  have t0: "track_object t = 0" "\<not> select_object t" "\<not> paused t"
    using assms by (auto simp: track_state_def split: if_splits)
  note g = gesture_state [OF t0(1), of p0 moves p1]
  have pos: "selection ?g = Rect 0 0 0 0 \<or> (0 < rect_width (selection ?g) \<and> 0 < rect_height (selection ?g))"
    unfolding gesture_selection by (rule rect_and_positive)
  have np: "\<not> paused ?g" using g(3) t0(3) by simp
  show ?thesis
  proof (cases "0 < rect_width (selection ?g) \<and> 0 < rect_height (selection ?g)")
    case True
    then have tr: "track_object ?g = - 1" using g(4) by simp
    have "track_state ?g = Initializing" using g(1) tr by (simp add: track_state_def)
    moreover have "track_object (fst (track_camshift calcHist CamShift points resized_video_size frame ?g)) = 1"
      "histogram (fst (track_camshift calcHist CamShift points resized_video_size frame ?g))
              = calcHist frame (selection ?g)"
      "\<not> select_object (fst (track_camshift calcHist CamShift points resized_video_size frame ?g))"
      "\<not> paused (fst (track_camshift calcHist CamShift points resized_video_size frame ?g))"
      using np tr g(1) by (simp_all add: track_camshift_def Let_def)
    ultimately show ?thesis using True by (simp add: track_state_def)
  next
    case False
    then have z: "selection ?g = Rect 0 0 0 0" using pos by blast
    have tr: "track_object ?g = 0" using g(4) False by simp
    have "track_state ?g = Idle" using g(1) tr np by (simp add: track_state_def)
    moreover have "track_camshift calcHist CamShift points resized_video_size frame ?g = (?g, Some [])"
      using np tr by (simp add: track_camshift_def)
    ultimately show ?thesis using g(2) by (simp add: z)
  qed
qed

theorem selection_starts_tracking_witness:
  "track_state example_tracker = Idle
   \<and> selection (selection_gesture (100, 100) [(150, 120)] (200, 180) example_tracker)
       = Rect 100 100 100 80
   \<and> track_state (fst (track_camshift (\<lambda>f r. nat (rect_area r))
                          (\<lambda>f h w. (\<lparr>rr_center = (0, 0), rr_size = (0, 0), rr_angle = 0\<rparr>, w))
                          (\<lambda>r. example_rectangle) (640, 480) ()
                          (selection_gesture (100, 100) [(150, 120)] (200, 180) example_tracker)))
       = Tracking
   \<and> histogram (fst (track_camshift (\<lambda>f r. nat (rect_area r))
                          (\<lambda>f h w. (\<lparr>rr_center = (0, 0), rr_size = (0, 0), rr_angle = 0\<rparr>, w))
                          (\<lambda>r. example_rectangle) (640, 480) ()
                          (selection_gesture (100, 100) [(150, 120)] (200, 180) example_tracker)))
       = 8000
   \<and> selection (selection_gesture (100, 100) [(120, 130)] (100, 150) example_tracker)
       = Rect 0 0 0 0
   \<and> track_state (selection_gesture (100, 100) [(120, 130)] (100, 150) example_tracker) = Idle"
proof -
  have idle: "track_state example_tracker = Idle"
    by (simp add: track_state_def example_tracker_def)
  have sel: "selection (selection_gesture (100, 100) [(150, 120)] (200, 180) example_tracker)
       = Rect 100 100 100 80"
    "selection (selection_gesture (100, 100) [(120, 130)] (100, 150) example_tracker)
       = Rect 0 0 0 0"
    by (simp_all add: gesture_selection rect_and_def Let_def example_tracker_def)
  show ?thesis
    using selection_starts_tracking [OF idle, of "(100, 100)" "[(150, 120)]" "(200, 180)"
        "\<lambda>f r. nat (rect_area r)"
        "\<lambda>f h w. (\<lparr>rr_center = (0, 0), rr_size = (0, 0), rr_angle = 0\<rparr>, w)"
        "\<lambda>r. example_rectangle" "(640, 480)" "()"]
      selection_starts_tracking [OF idle, of "(100, 100)" "[(120, 130)]" "(100, 150)"
        "\<lambda>f r. nat (rect_area r)"
        "\<lambda>f h w. (\<lparr>rr_center = (0, 0), rr_size = (0, 0), rr_angle = 0\<rparr>, w)"
        "\<lambda>r. example_rectangle" "(640, 480)" "()"]
    by (simp add: idle sel rect_area_def)
qed

text \<open>
  While the loop is paused the same selection takes one iteration more: the first
  iteration after the button is released only clears \<^verbatim>\<open>paused\<close>, the second one learns
  the histogram and tracks.
\<close>

lemma paused_selection_takes_two_iterations:
  assumes "track_object t = 0" and "paused t"
    and "0 < rect_width (selection (selection_gesture p0 moves p1 t))"
    and "0 < rect_height (selection (selection_gesture p0 moves p1 t))"
  shows "track_camshift calcHist CamShift points resized_video_size frame (selection_gesture p0 moves p1 t)
           = ((selection_gesture p0 moves p1 t)\<lparr>paused := False\<rparr>, Some [])"
    and "track_state (fst (track_camshift calcHist CamShift points resized_video_size frame'
            ((selection_gesture p0 moves p1 t)\<lparr>paused := False\<rparr>))) = Tracking"
proof -
  let ?g = "selection_gesture p0 moves p1 t"
  note g = gesture_state [OF assms(1), of p0 moves p1]
  have tr: "track_object ?g = - 1" "paused ?g" "\<not> select_object ?g"
    using g assms by simp_all
  then show "track_camshift calcHist CamShift points resized_video_size frame ?g
           = (?g\<lparr>paused := False\<rparr>, Some [])"
    by (simp add: track_camshift_def)
  show "track_state (fst (track_camshift calcHist CamShift points resized_video_size frame'
            (?g\<lparr>paused := False\<rparr>))) = Tracking"
    using tr by (simp add: track_camshift_def Let_def track_state_def)
qed

end
